theory Spec2Isabelle
  imports Complex_Main
begin

section \<open>Column Normalizer (\<open>clean_column_names\<close>)\<close>

text \<open>
  Python strings are modelled as \<open>string\<close> over ASCII characters. \<open>str.lower\<close> maps
  the letters \<open>A\<close>..\<open>Z\<close> to \<open>a\<close>..\<open>z\<close> and leaves every other ASCII character alone.
\<close>

definition lower_char :: "char \<Rightarrow> char" where
  "lower_char c =
     (let n = (of_char c :: nat) in if 65 \<le> n \<and> n \<le> 90 then char_of (n + 32) else c)"

definition lower :: "string \<Rightarrow> string" where
  "lower s = map lower_char s"

text \<open>
  The table built by \<open>str.maketrans\<close> in \<open>clean_column_names\<close>: a character is mapped
  to its replacement string (the empty string deletes it).
\<close>

definition transformations :: "(char \<times> string) list" where
  "transformations =
     [(CHR ''-'', ''_''), (CHR '' '', ''_''), (CHR ''$'', ''''), (CHR ''?'', ''''),
      (CHR ''/'', ''_''), (CHR 0x5C, ''_''), (CHR ''%'', ''''), (CHR '')'', ''''),
      (CHR ''('', '''')]"

definition translate_char :: "(char \<times> string) list \<Rightarrow> char \<Rightarrow> string" where
  "translate_char tbl c = (case map_of tbl c of None \<Rightarrow> [c] | Some r \<Rightarrow> r)"

definition translate :: "(char \<times> string) list \<Rightarrow> string \<Rightarrow> string" where
  "translate tbl s = concat (map (translate_char tbl) s)"

definition normalize_column :: "string \<Rightarrow> string" where
  "normalize_column col = translate transformations (lower col)"

text \<open>A data frame is seen here through its list of column names only.\<close>

definition clean_column_names :: "string list list \<Rightarrow> string list list" where
  "clean_column_names dataframes = map (map normalize_column) dataframes"

section \<open>Data model: cells and rows\<close>

text \<open>
  A cell of a data frame is a missing value, a string, a number or a time stamp. The
  missing values are Python's \<open>None\<close>, the float \<open>NaN\<close> and the time stamp \<open>NaT\<close>:
  \<open>pd.isna\<close> accepts all three, but they are three different values, and pandas tells
  them apart in some comparisons and not in others. A number is the rational it denotes,
  so that the integer \<open>100\<close> and the float \<open>100.0\<close> are equal as they are for Python's
  \<open>==\<close>; no arithmetic is done on numbers.
\<close>

datatype date = Date (year: nat) (month: nat) (day: nat)

datatype cell = PyNone | NaN | NaT | Text string | Num rat | Stamp date

definition isna :: "cell \<Rightarrow> bool" where
  "isna c = (c = PyNone \<or> c = NaN \<or> c = NaT)"

text \<open>
  A row of the frame \<open>dataframes[0][SELECTED_COLUMNS]\<close>: one field per selected column,
  in the order of \<open>SELECTED_COLUMNS\<close>. The column \<open>id\<close> is \<open>id_col\<close> here. A column of
  the frame is named by its selector, of type \<open>row \<Rightarrow> cell\<close>, so a column name that the
  frame does not have (a \<open>KeyError\<close> in pandas) cannot be written.
\<close>

record row =
  id_col :: cell
  country :: cell
  shipment_mode :: cell
  scheduled_delivery_date :: cell
  delivered_to_client_date :: cell
  delivery_recorded_date :: cell
  product_group :: cell
  sub_classification :: cell
  vendor :: cell
  item_description :: cell
  molecule_test_type :: cell
  brand :: cell
  dosage :: cell
  dosage_form :: cell
  line_item_quantity :: cell
  line_item_value :: cell
  unit_price :: cell
  weight_kilograms :: cell
  freight_cost_usd :: cell
  line_item_insurance_usd :: cell

text \<open>
  A frame that is searched by \<open>id\<close> carries the type of its \<open>id\<close> column, which decides how
  the comparison \<open>dataset["id"] == int(id_str)\<close> treats the integer: \<open>int64\<close> and \<open>float64\<close>
  for the numeric columns that \<open>read_csv\<close> builds, \<open>object\<close> for a column of Python values.
\<close>

datatype dtype = Int64 | Float64 | Object

record frame =
  id_dtype :: dtype
  frame_rows :: "row list"

datatype py_error = ValueError | IndexError | AttributeError

section \<open>Reference Resolver (\<open>resolve_id_reference\<close>)\<close>

definition is_digit :: "char \<Rightarrow> bool" where
  "is_digit c = (48 \<le> (of_char c :: nat) \<and> (of_char c :: nat) \<le> 57)"

definition digit_val :: "char \<Rightarrow> nat" where
  "digit_val c = of_char c - 48"

text \<open>
  \<open>re.match(ID_PATTERN, value)\<close> with \<open>ID_PATTERN = r":\d+"\<close>: the pattern is tried at
  the first character only; \<open>\d+\<close> is greedy. The result is the matched text.
\<close>

fun re_match_id :: "string \<Rightarrow> string option" where
  "re_match_id [] = None"
| "re_match_id (c # cs) =
     (if c = CHR '':'' \<and> takeWhile is_digit cs \<noteq> []
      then Some (c # takeWhile is_digit cs) else None)"

text \<open>\<open>re.search(ID_PATTERN, value)\<close>: the leftmost position where the pattern matches.\<close>

fun re_search_id :: "string \<Rightarrow> string option" where
  "re_search_id [] = None"
| "re_search_id (c # cs) =
     (case re_match_id (c # cs) of Some m \<Rightarrow> Some m | None \<Rightarrow> re_search_id cs)"

definition replace_colon :: "string \<Rightarrow> string" where
  "replace_colon s = filter (\<lambda>c. c \<noteq> CHR '':'') s"

text \<open>
  \<open>int(id_str)\<close> on the strings that reach it, which are runs of decimal digits; any other
  string is a \<open>ValueError\<close>.
\<close>

definition py_int :: "string \<Rightarrow> py_error + int" where
  "py_int s =
     (if s \<noteq> [] \<and> list_all is_digit s
      then Inr (int (foldl (\<lambda>n c. 10 * n + digit_val c) 0 s))
      else Inl ValueError)"

text \<open>
  The double nearest to a natural number, ties going to the even significand of 53 bits.
  Numbers below \<open>2 ^ 53\<close> are doubles themselves. The exponent range of a double is not
  modelled: integers of \<open>2 ^ 1024\<close> and more are outside the model.
\<close>

fun bit_length :: "nat \<Rightarrow> nat" where
  "bit_length n = (if n = 0 then 0 else Suc (bit_length (n div 2)))"

declare bit_length.simps [simp del]

definition float64_of_nat :: "nat \<Rightarrow> nat" where
  "float64_of_nat n =
     (if n < 2 ^ 53 then n
      else (let e = bit_length n - 53; q = n div 2 ^ e; r = n mod 2 ^ e; half = 2 ^ (e - 1)
            in (if half < r \<or> (r = half \<and> odd q) then q + 1 else q) * 2 ^ e))"

definition float64_of_int :: "int \<Rightarrow> rat" where
  "float64_of_int k =
     (if k < 0 then - of_nat (float64_of_nat (nat (- k))) else of_nat (float64_of_nat (nat k)))"

text \<open>
  The number that the cells of the \<open>id\<close> column are compared with. Against a \<open>float64\<close>
  column numpy converts the Python integer to a double first; against an \<open>int64\<close> column
  and against Python values the comparison is that of the integers (for an \<open>int64\<close>
  column and an integer beyond the \<open>int64\<close> range this is what numpy 2 does; older
  versions compare as doubles there).
\<close>

definition id_scalar :: "dtype \<Rightarrow> int \<Rightarrow> rat" where
  "id_scalar dt k = (case dt of Float64 \<Rightarrow> float64_of_int k | _ \<Rightarrow> of_int k)"

text \<open>
  \<open>dataset.loc[dataset["id"] == k, column]\<close>: the cells of \<open>column\<close> in the rows whose
  \<open>id\<close> compares equal to the integer \<open>k\<close>, in row order.
\<close>

definition loc_id :: "frame \<Rightarrow> int \<Rightarrow> (row \<Rightarrow> cell) \<Rightarrow> cell list" where
  "loc_id dataset k column =
     map column
       (filter (\<lambda>r. id_col r = Num (id_scalar (id_dtype dataset) k)) (frame_rows dataset))"

text \<open>
  The guard of line 82 lets a value through when it is a string and \<open>re.match\<close> succeeds.
  Lines 84 to 90 follow as \<open>lookup_reference\<close>; the message printed on line 89 is not
  part of the result.
\<close>

definition is_reference :: "cell \<Rightarrow> bool" where
  "is_reference v = (case v of Text s \<Rightarrow> re_match_id s \<noteq> None | _ \<Rightarrow> False)"

definition lookup_reference :: "string \<Rightarrow> frame \<Rightarrow> (row \<Rightarrow> cell) \<Rightarrow> py_error + cell" where
  "lookup_reference s dataset column =
     (case re_search_id s of
        None \<Rightarrow> Inl AttributeError
      | Some m \<Rightarrow>
          (case py_int (replace_colon m) of
             Inl e \<Rightarrow> (if e = ValueError \<or> e = IndexError then Inr (Text s) else Inl e)
           | Inr k \<Rightarrow>
               (case loc_id dataset k column of
                  [] \<Rightarrow> Inr (Text s)
                | x # _ \<Rightarrow> Inr x)))"

definition resolve_id_reference :: "cell \<Rightarrow> frame \<Rightarrow> (row \<Rightarrow> cell) \<Rightarrow> py_error + cell" where
  "resolve_id_reference v dataset column =
     (if \<not> is_reference v then Inr v
      else (case v of Text s \<Rightarrow> lookup_reference s dataset column | _ \<Rightarrow> Inr v))"

text \<open>
  The reference pattern as the specification words it: a colon followed by one or more
  digits, found at some position of the string.
\<close>

definition occurs_at_start :: "string \<Rightarrow> bool" where
  "occurs_at_start s = (\<exists>d ds rest. s = CHR '':'' # d # ds @ rest \<and> is_digit d)"

definition occurs_anywhere :: "string \<Rightarrow> bool" where
  "occurs_anywhere s = (\<exists>pre suf. s = pre @ suf \<and> occurs_at_start suf)"

text \<open>
  The integer that lines 84 and 86 read out of a string: the digits of the leftmost
  occurrence of the pattern.
\<close>

definition extracted_id :: "string \<Rightarrow> int option" where
  "extracted_id s =
     (case re_search_id s of
        None \<Rightarrow> None
      | Some m \<Rightarrow> (case py_int (replace_colon m) of Inl e \<Rightarrow> None | Inr k \<Rightarrow> Some k))"

text \<open>A row for the examples, with the given \<open>id\<close> and weight.\<close>

definition example_row :: "rat \<Rightarrow> cell \<Rightarrow> row" where
  "example_row n w =
     \<lparr>id_col = Num n, country = Text ''Vietnam'', shipment_mode = Text ''Air'',
      scheduled_delivery_date = NaT, delivered_to_client_date = NaT,
      delivery_recorded_date = NaT, product_group = Text ''ARV'',
      sub_classification = Text ''Adult'', vendor = Text ''SCMS'',
      item_description = Text ''item'', molecule_test_type = Text ''test'',
      brand = Text ''Generic'', dosage = Text ''10mg'', dosage_form = Text ''Tablet'',
      line_item_quantity = Num 1, line_item_value = Num 1, unit_price = Num 1,
      weight_kilograms = w, freight_cost_usd = Num 1, line_item_insurance_usd = Num 1\<rparr>"

section \<open>Dimension Extractor (\<open>create_dimension_tables\<close>)\<close>

text \<open>
  \<open>DataFrame.drop_duplicates()\<close> keeps the first occurrence of every combination and the
  order of the rows kept. On a frame of one column (pandas 1.5 and later) the rows are
  compared as the values of that column: two cells are duplicates when they are equal,
  \<open>NaN\<close> being equal to \<open>NaN\<close>, while \<open>None\<close>, \<open>NaN\<close> and \<open>NaT\<close> are different values.
\<close>

fun drop_duplicates :: "'a list \<Rightarrow> 'a list" where
  "drop_duplicates [] = []"
| "drop_duplicates (x # xs) = x # drop_duplicates (filter (\<lambda>y. y \<noteq> x) xs)"

text \<open>
  On a frame of several columns every column is factorized first, and two rows are
  duplicates when their labels are equal. To factorize gives every missing value the
  same label.
\<close>

definition na_label :: "cell \<Rightarrow> cell option" where
  "na_label c = (if isna c then None else Some c)"

fun drop_duplicates_by :: "('a \<Rightarrow> 'b) \<Rightarrow> 'a list \<Rightarrow> 'a list" where
  "drop_duplicates_by label [] = []"
| "drop_duplicates_by label (x # xs) =
     x # drop_duplicates_by label (filter (\<lambda>y. label y \<noteq> label x) xs)"

text \<open>
  \<open>reset_index(drop=True)\<close> numbers the rows kept from \<open>0\<close>; the surrogate key column is
  \<open>index + 1\<close>. A dimension table is the list of its rows, each the natural key paired
  with the surrogate key.
\<close>

definition reset_index :: "'a list \<Rightarrow> ('a \<times> nat) list" where
  "reset_index xs = zip xs [0..<length xs]"

definition dimension :: "'k list \<Rightarrow> ('k \<times> nat) list" where
  "dimension keys = map (\<lambda>(k, index). (k, index + 1)) (reset_index (drop_duplicates keys))"

definition dimension_by :: "('k \<Rightarrow> 'l) \<Rightarrow> 'k list \<Rightarrow> ('k \<times> nat) list" where
  "dimension_by label keys =
     map (\<lambda>(k, index). (k, index + 1)) (reset_index (drop_duplicates_by label keys))"

text \<open>
  \<open>left.merge(right, left_on=..., right_on=..., how="left")\<close>: every left row, in order,
  joined with each right row of the same key, in the right table's order; a left row
  with no partner is kept once with a missing surrogate key. The keys of both sides are
  factorized, so two keys are the same when their labels are equal: a missing key
  matches every missing key, of whatever kind.
\<close>

definition merge_left ::
  "'a list \<Rightarrow> ('a \<Rightarrow> 'k) \<Rightarrow> ('k \<Rightarrow> 'l) \<Rightarrow> ('k \<times> nat) list \<Rightarrow> ('a \<times> nat option) list" where
  "merge_left left key label right =
     concat (map (\<lambda>l. case filter (\<lambda>d. label (fst d) = label (key l)) right of
                          [] \<Rightarrow> [(l, None)]
                        | ms \<Rightarrow> map (\<lambda>d. (l, Some (snd d))) ms) left)"

text \<open>The seven columns of the natural key of a product, in the order of line 226.\<close>

definition product_columns :: "row \<Rightarrow> cell list" where
  "product_columns r =
     [product_group r, sub_classification r, item_description r, molecule_test_type r,
      brand r, dosage r, dosage_form r]"

text \<open>
  A row of the fact table, with the columns of \<open>final_columns\<close> in their order. The
  columns carried over from the input keep their names with the suffix \<open>_f\<close>.
\<close>

record delivery =
  delivery_id :: cell
  country_id :: "nat option"
  mode_id :: "nat option"
  scheduled_delivery_date_f :: cell
  delivered_to_client_date_f :: cell
  delivery_recorded_date_f :: cell
  product_id :: "nat option"
  vendor_id :: "nat option"
  line_item_quantity_f :: cell
  line_item_value_f :: cell
  unit_price_f :: cell
  weight_kilograms_f :: cell
  freight_cost_usd_f :: cell
  line_item_insurance_usd_f :: cell

text \<open>
  The four merges add one key column each; the last step renames \<open>id\<close> and selects
  \<open>final_columns\<close>.
\<close>

definition select_final :: "(((row \<times> nat option) \<times> nat option) \<times> nat option) \<times> nat option \<Rightarrow> delivery" where
  "select_final m =
     (case m of ((((r, c), v), t), p) \<Rightarrow>
        \<lparr>delivery_id = id_col r, country_id = c, mode_id = t,
         scheduled_delivery_date_f = scheduled_delivery_date r,
         delivered_to_client_date_f = delivered_to_client_date r,
         delivery_recorded_date_f = delivery_recorded_date r,
         product_id = p, vendor_id = v,
         line_item_quantity_f = line_item_quantity r,
         line_item_value_f = line_item_value r,
         unit_price_f = unit_price r,
         weight_kilograms_f = weight_kilograms r,
         freight_cost_usd_f = freight_cost_usd r,
         line_item_insurance_usd_f = line_item_insurance_usd r\<rparr>)"

record dimension_tables =
  df_with_ids :: "delivery list"
  countries :: "(cell \<times> nat) list"
  vendors :: "(cell \<times> nat) list"
  transport_modes :: "(cell \<times> nat) list"
  products :: "(cell list \<times> nat) list"

text \<open>
  The three tables of one column go through the comparison of values, the products
  table through the labels of its seven columns; every merge compares labels.
\<close>

definition create_dimension_tables :: "row list \<Rightarrow> dimension_tables" where
  "create_dimension_tables df =
     (let countries = dimension (map country df);
          vendors = dimension (map vendor df);
          transport_modes = dimension (map shipment_mode df);
          products = dimension_by (map na_label) (map product_columns df);
          m1 = merge_left df country na_label countries;
          m2 = merge_left m1 (\<lambda>m. vendor (fst m)) na_label vendors;
          m3 = merge_left m2 (\<lambda>m. shipment_mode (fst (fst m))) na_label transport_modes;
          m4 = merge_left m3 (\<lambda>m. product_columns (fst (fst (fst m)))) (map na_label) products
      in \<lparr>df_with_ids = map select_final m4, countries = countries, vendors = vendors,
          transport_modes = transport_modes, products = products\<rparr>)"




text \<open>A column holds at most one of the three kinds of missing value.\<close>

definition one_missing_kind :: "cell list \<Rightarrow> bool" where
  "one_missing_kind column = (length (remdups (filter isna column)) \<le> 1)"

text \<open>The surrogate key that a dimension table holds for the label of a natural key.\<close>

definition key_of :: "('k \<Rightarrow> 'l) \<Rightarrow> ('k \<times> nat) list \<Rightarrow> 'k \<Rightarrow> nat option" where
  "key_of label tbl k = map_of (map (\<lambda>d. (label (fst d), snd d)) tbl) (label k)"

text \<open>
  The fact row of an input row: the columns carried over, and for each natural key the
  surrogate key that the dimension table holds for it.
\<close>

definition fact_row :: "dimension_tables \<Rightarrow> row \<Rightarrow> delivery" where
  "fact_row T r =
     \<lparr>delivery_id = id_col r,
      country_id = key_of na_label (countries T) (country r),
      mode_id = key_of na_label (transport_modes T) (shipment_mode r),
      scheduled_delivery_date_f = scheduled_delivery_date r,
      delivered_to_client_date_f = delivered_to_client_date r,
      delivery_recorded_date_f = delivery_recorded_date r,
      product_id = key_of (map na_label) (products T) (product_columns r),
      vendor_id = key_of na_label (vendors T) (vendor r),
      line_item_quantity_f = line_item_quantity r,
      line_item_value_f = line_item_value r,
      unit_price_f = unit_price r,
      weight_kilograms_f = weight_kilograms r,
      freight_cost_usd_f = freight_cost_usd r,
      line_item_insurance_usd_f = line_item_insurance_usd r\<rparr>"

text \<open>
  Rows for the examples: the row \<open>example_row n NaN\<close> with another country, and with
  another dosage.
\<close>

definition country_row :: "rat \<Rightarrow> cell \<Rightarrow> row" where
  "country_row n c = (example_row n NaN)\<lparr>country := c\<rparr>"


section \<open>Persistence Layer: the statement built by \<open>create_table\<close>\<close>

definition column_types :: "(string \<times> string) list" where
  "column_types =
     [(''int64'', ''BIGINT''), (''float64'', ''DOUBLE PRECISION''),
      (''datetime64[ns]'', ''TIMESTAMP''), (''object'', ''TEXT''), (''bool'', ''BOOLEAN'')]"

definition get_column_type :: "string \<Rightarrow> string" where
  "get_column_type dtype = (case map_of column_types dtype of Some t \<Rightarrow> t | None \<Rightarrow> ''TEXT'')"

definition endswith :: "string \<Rightarrow> string \<Rightarrow> bool" where
  "endswith s suffix =
     (length suffix \<le> length s \<and> drop (length s - length suffix) s = suffix)"

text \<open>One entry of \<open>columns_def\<close> for a column of the frame (lines 152 to 160).\<close>

definition column_def :: "string \<Rightarrow> string \<Rightarrow> string \<Rightarrow> string" where
  "column_def table_name col dtype =
     (let pg_type = get_column_type dtype in
      if table_name = ''deliveries'' \<and> col = ''delivery_id''
      then col @ '' '' @ pg_type @ '' NOT NULL PRIMARY KEY''
      else if table_name \<noteq> ''deliveries'' \<and> endswith col ''_id''
      then col @ '' '' @ pg_type @ '' NOT NULL PRIMARY KEY''
      else col @ '' '' @ pg_type)"

record foreign_key =
  fk_column :: string
  ref_table :: string
  ref_column :: string

definition foreign_key_def :: "foreign_key \<Rightarrow> string" where
  "foreign_key_def fk =
     ''FOREIGN KEY ('' @ fk_column fk @ '') REFERENCES '' @ ref_table fk
       @ '' ('' @ ref_column fk @ '')''"

text \<open>
  \<open>dtypes\<close> is \<open>df.dtypes.items()\<close> with each dtype as \<open>str(dtype)\<close>; \<open>foreign_keys\<close> is the
  list given, empty for \<open>None\<close>.
\<close>

definition columns_def :: "string \<Rightarrow> (string \<times> string) list \<Rightarrow> foreign_key list \<Rightarrow> string list" where
  "columns_def table_name dtypes foreign_keys =
     map (\<lambda>(col, dtype). column_def table_name col dtype) dtypes
       @ map foreign_key_def foreign_keys"

fun join :: "string \<Rightarrow> string list \<Rightarrow> string" where
  "join sep [] = []"
| "join sep [x] = x"
| "join sep (x # y # ys) = x @ sep @ join sep (y # ys)"

text \<open>\<open>sql.Identifier\<close>: the name in double quotes, each double quote in it doubled.\<close>

definition sql_identifier :: "string \<Rightarrow> string" where
  "sql_identifier name =
     [CHR 0x22] @ concat (map (\<lambda>c. if c = CHR 0x22 then [c, c] else [c]) name) @ [CHR 0x22]"

definition create_table_query :: "string \<Rightarrow> (string \<times> string) list \<Rightarrow> foreign_key list \<Rightarrow> string" where
  "create_table_query table_name dtypes foreign_keys =
     ''CREATE TABLE IF NOT EXISTS '' @ sql_identifier table_name @ '' (''
       @ join '', '' (columns_def table_name dtypes foreign_keys) @ '')''"

section \<open>The main pipeline, steps 5 to 7\<close>

text \<open>
  \<open>Series.astype(str)\<close>: a string stays as it is; the text of any other cell is given by
  the parameter \<open>repr\<close> (Python's \<open>str\<close> of a float, of \<open>nan\<close>, of a time stamp).
\<close>

definition astype_str :: "(cell \<Rightarrow> string) \<Rightarrow> cell \<Rightarrow> cell" where
  "astype_str repr c = (case c of Text s \<Rightarrow> Text s | _ \<Rightarrow> Text (repr c))"

text \<open>\<open>Series.apply(f)\<close>: \<open>f\<close> on every value in order; the first exception propagates.\<close>

fun apply_series :: "('a \<Rightarrow> py_error + 'b) \<Rightarrow> 'a list \<Rightarrow> py_error + 'b list" where
  "apply_series f [] = Inr []"
| "apply_series f (x # xs) =
     (case f x of
        Inl e \<Rightarrow> Inl e
      | Inr y \<Rightarrow> (case apply_series f xs of Inl e \<Rightarrow> Inl e | Inr ys \<Rightarrow> Inr (y # ys)))"

text \<open>
  The conversion of one value to a float. The parameter \<open>cast\<close> is Python's \<open>float\<close> on
  strings: \<open>None\<close> when it raises, otherwise the cell of the float (a number, or
  \<open>NaN\<close>). A number is itself, Python's \<open>None\<close> becomes \<open>NaN\<close>, and a time stamp, missing
  or not, has no conversion.
\<close>

definition float_of_cell :: "(string \<Rightarrow> cell option) \<Rightarrow> cell \<Rightarrow> cell option" where
  "float_of_cell cast c =
     (case c of Text s \<Rightarrow> cast s | Num q \<Rightarrow> Some (Num q) | PyNone \<Rightarrow> Some NaN
      | NaN \<Rightarrow> Some NaN | NaT \<Rightarrow> None | Stamp d \<Rightarrow> None)"

text \<open>
  \<open>Series.astype(float, errors='ignore')\<close>: the whole series is converted; when the
  conversion of any value raises, the exception is suppressed and the original series
  is returned.
\<close>

definition astype_float_ignore :: "(string \<Rightarrow> cell option) \<Rightarrow> cell list \<Rightarrow> cell list" where
  "astype_float_ignore cast series =
     (case those (map (float_of_cell cast) series) of
        Some converted \<Rightarrow> converted
      | None \<Rightarrow> series)"

text \<open>The right-hand side of the assignment of lines 22 to 24, for one column.\<close>

definition resolve_column ::
  "(cell \<Rightarrow> string) \<Rightarrow> (string \<Rightarrow> cell option) \<Rightarrow> frame \<Rightarrow> (row \<Rightarrow> cell) \<Rightarrow> row list
     \<Rightarrow> py_error + cell list" where
  "resolve_column repr cast dataset col df =
     (case apply_series (\<lambda>x. resolve_id_reference x dataset col)
             (map (\<lambda>r. astype_str repr (col r)) df) of
        Inl e \<Rightarrow> Inl e
      | Inr resolved \<Rightarrow> Inr (astype_float_ignore cast resolved))"

text \<open>
  Step 5: \<open>dataset\<close> is a copy of the frame taken before the loop; the loop assigns
  \<open>freight_cost_usd\<close> first and \<open>weight_kilograms\<close> second.
\<close>

definition resolve_references ::
  "(cell \<Rightarrow> string) \<Rightarrow> (string \<Rightarrow> cell option) \<Rightarrow> frame \<Rightarrow> py_error + row list" where
  "resolve_references repr cast df =
     (let dataset = df in
      case resolve_column repr cast dataset freight_cost_usd (frame_rows df) of
        Inl e \<Rightarrow> Inl e
      | Inr fs \<Rightarrow>
          (let df1 = map2 (\<lambda>r v. r\<lparr>freight_cost_usd := v\<rparr>) (frame_rows df) fs in
           case resolve_column repr cast dataset weight_kilograms df1 of
             Inl e \<Rightarrow> Inl e
           | Inr ws \<Rightarrow> Inr (map2 (\<lambda>r v. r\<lparr>weight_kilograms := v\<rparr>) df1 ws)))"

text \<open>Step 6: \<open>df.dropna(subset=["shipment_mode", "line_item_insurance_usd"])\<close>.\<close>

definition dropna :: "row list \<Rightarrow> row list" where
  "dropna df =
     filter (\<lambda>r. \<not> isna (shipment_mode r) \<and> \<not> isna (line_item_insurance_usd r)) df"

text \<open>Steps 5, 6 and 7 of \<open>main\<close>, from the selected frame to the tables to be stored.\<close>

definition main_steps ::
  "(cell \<Rightarrow> string) \<Rightarrow> (string \<Rightarrow> cell option) \<Rightarrow> frame \<Rightarrow> py_error + dimension_tables" where
  "main_steps repr cast df =
     (case resolve_references repr cast df of
        Inl e \<Rightarrow> Inl e
      | Inr resolved \<Rightarrow> Inr (create_dimension_tables (dropna resolved)))"

text \<open>
  An instance of \<open>float\<close> on the unsigned decimal integer literals, with every other
  string refused; it instantiates \<open>cast\<close> in the examples.
\<close>

definition float_of_digits :: "string \<Rightarrow> cell option" where
  "float_of_digits s =
     (if s \<noteq> [] \<and> list_all is_digit s
      then Some (Num (of_nat (foldl (\<lambda>n c. 10 * n + digit_val c) 0 s)))
      else None)"

text \<open>
  The coercion as the specification words it: every value on its own, a value that
  cannot be converted staying as it is.
\<close>

definition astype_float_per_value :: "(string \<Rightarrow> cell option) \<Rightarrow> cell list \<Rightarrow> cell list" where
  "astype_float_per_value cast series =
     map (\<lambda>c. case float_of_cell cast c of Some x \<Rightarrow> x | None \<Rightarrow> c) series"

text \<open>The value that resolution leaves in place of a cell.\<close>

definition resolved_value :: "frame \<Rightarrow> (row \<Rightarrow> cell) \<Rightarrow> cell \<Rightarrow> cell" where
  "resolved_value dataset col x =
     (case resolve_id_reference x dataset col of Inr c \<Rightarrow> c | Inl e \<Rightarrow> x)"

text \<open>A row for the examples, with the given \<open>id\<close> and freight cost text.\<close>

definition freight_row :: "rat \<Rightarrow> string \<Rightarrow> row" where
  "freight_row n f = (example_row n NaN)\<lparr>freight_cost_usd := Text f\<rparr>"

text \<open>A row for the examples, with the given \<open>id\<close>, shipment mode and insurance.\<close>

definition mode_row :: "rat \<Rightarrow> cell \<Rightarrow> cell \<Rightarrow> row" where
  "mode_row n m i = (example_row n NaN)\<lparr>shipment_mode := m, line_item_insurance_usd := i\<rparr>"

text \<open>The columns that step 5 leaves as they are, among those that steps 6 and 7 read.\<close>

definition kept_columns :: "row \<Rightarrow> cell \<times> cell \<times> cell \<times> cell \<times> cell" where
  "kept_columns r = (id_col r, shipment_mode r, line_item_insurance_usd r, country r, vendor r)"

section \<open>Date Parser (\<open>parse_date\<close>)\<close>

text \<open>
  \<open>datetime.strptime\<close> for the directives that \<open>DATE_FORMATS\<close> uses, after CPython's
  \<open>_strptime\<close>: the format becomes a regular expression, one group per directive,
  matched case-insensitively at the start of the string; the first match in
  backtracking order is taken, and text left over after it is an error. Month names
  are those of the C locale. Any other directive is \<open>Bad\<close> and makes the call fail.
\<close>

datatype directive = Lit char | D_m | D_d | D_y | D_Y | D_b | Bad char

definition directive_of :: "char \<Rightarrow> directive" where
  "directive_of c =
     (if c = CHR ''m'' then D_m else if c = CHR ''d'' then D_d
      else if c = CHR ''y'' then D_y else if c = CHR ''Y'' then D_Y
      else if c = CHR ''b'' then D_b else Bad c)"

fun parse_format :: "string \<Rightarrow> directive list" where
  "parse_format [] = []"
| "parse_format [c] = (if c = CHR ''%'' then [Bad c] else [Lit c])"
| "parse_format (c # d # cs) =
     (if c = CHR ''%'' then directive_of d # parse_format cs
      else Lit c # parse_format (d # cs))"

definition in_range :: "char \<Rightarrow> char \<Rightarrow> char \<Rightarrow> bool" where
  "in_range lo hi c =
     ((of_char lo :: nat) \<le> of_char c \<and> (of_char c :: nat) \<le> of_char hi)"

definition one_char :: "(char \<Rightarrow> bool) \<Rightarrow> string \<Rightarrow> (nat \<times> string) list" where
  "one_char P s =
     (case s of a # r \<Rightarrow> if P a then [(digit_val a, r)] else [] | [] \<Rightarrow> [])"

definition two_chars :: "(char \<Rightarrow> bool) \<Rightarrow> (char \<Rightarrow> bool) \<Rightarrow> string \<Rightarrow> (nat \<times> string) list" where
  "two_chars P Q s =
     (case s of
        a # b # r \<Rightarrow> if P a \<and> Q b then [(10 * digit_val a + digit_val b, r)] else []
      | _ \<Rightarrow> [])"

definition space_digit :: "string \<Rightarrow> (nat \<times> string) list" where
  "space_digit s =
     (case s of
        a # b # r \<Rightarrow>
          if a = CHR '' '' \<and> in_range (CHR ''1'') (CHR ''9'') b then [(digit_val b, r)] else []
      | _ \<Rightarrow> [])"

definition four_digits :: "string \<Rightarrow> (nat \<times> string) list" where
  "four_digits s =
     (case s of
        a # b # c # d # r \<Rightarrow>
          if is_digit a \<and> is_digit b \<and> is_digit c \<and> is_digit d
          then [(1000 * digit_val a + 100 * digit_val b + 10 * digit_val c + digit_val d, r)]
          else []
      | _ \<Rightarrow> [])"

definition a_month :: "string list" where
  "a_month =
     [''jan'', ''feb'', ''mar'', ''apr'', ''may'', ''jun'',
      ''jul'', ''aug'', ''sep'', ''oct'', ''nov'', ''dec'']"

fun index_of :: "'a list \<Rightarrow> 'a \<Rightarrow> nat option" where
  "index_of [] x = None"
| "index_of (y # ys) x = (if y = x then Some 0 else map_option Suc (index_of ys x))"

definition month_name :: "string \<Rightarrow> (nat \<times> string) list" where
  "month_name s =
     (case s of
        a # b # c # r \<Rightarrow>
          (case index_of a_month (lower [a, b, c]) of Some i \<Rightarrow> [(i + 1, r)] | None \<Rightarrow> [])
      | _ \<Rightarrow> [])"

text \<open>
  The ways one directive can match at the start of a string, in the order of the
  alternatives of its group: the value read and the rest of the string.
  \<open>%m\<close> is \<open>1[0-2]|0[1-9]|[1-9]\<close>, \<open>%d\<close> is \<open>3[0-1]|[1-2]\d|0[1-9]|[1-9]| [1-9]\<close>,
  \<open>%y\<close> is \<open>\d\d\<close> and \<open>%Y\<close> is \<open>\d\d\d\d\<close>.
\<close>

fun match_directive :: "directive \<Rightarrow> string \<Rightarrow> (nat \<times> string) list" where
  "match_directive (Lit c) s =
     (case s of a # r \<Rightarrow> if lower_char a = lower_char c then [(0, r)] else [] | [] \<Rightarrow> [])"
| "match_directive D_m s =
     two_chars (\<lambda>a. a = CHR ''1'') (in_range (CHR ''0'') (CHR ''2'')) s
     @ two_chars (\<lambda>a. a = CHR ''0'') (in_range (CHR ''1'') (CHR ''9'')) s
     @ one_char (in_range (CHR ''1'') (CHR ''9'')) s"
| "match_directive D_d s =
     two_chars (\<lambda>a. a = CHR ''3'') (in_range (CHR ''0'') (CHR ''1'')) s
     @ two_chars (in_range (CHR ''1'') (CHR ''2'')) is_digit s
     @ two_chars (\<lambda>a. a = CHR ''0'') (in_range (CHR ''1'') (CHR ''9'')) s
     @ one_char (in_range (CHR ''1'') (CHR ''9'')) s
     @ space_digit s"
| "match_directive D_y s = two_chars is_digit is_digit s"
| "match_directive D_Y s = four_digits s"
| "match_directive D_b s = month_name s"
| "match_directive (Bad c) s = []"

text \<open>All matches of a format in backtracking order: the groups read and the rest.\<close>

fun match_format :: "directive list \<Rightarrow> string \<Rightarrow> ((directive \<times> nat) list \<times> string) list" where
  "match_format [] s = [([], s)]"
| "match_format (d # ds) s =
     concat (map (\<lambda>(v, r). map (\<lambda>(found, rest). ((d, v) # found, rest)) (match_format ds r))
               (match_directive d s))"

text \<open>
  The loop over the groups found: \<open>%y\<close> is a year of this century up to 68 and of the
  last one from 69; the defaults are the year 1900, month 1 and day 1.
\<close>

fun set_field :: "date \<Rightarrow> directive \<times> nat \<Rightarrow> date" where
  "set_field dt (D_y, v) = Date (if v \<le> 68 then v + 2000 else v + 1900) (month dt) (day dt)"
| "set_field dt (D_Y, v) = Date v (month dt) (day dt)"
| "set_field dt (D_m, v) = Date (year dt) v (day dt)"
| "set_field dt (D_b, v) = Date (year dt) v (day dt)"
| "set_field dt (D_d, v) = Date (year dt) (month dt) v"
| "set_field dt (_, v) = dt"

definition is_leap :: "nat \<Rightarrow> bool" where
  "is_leap y = (y mod 4 = 0 \<and> (y mod 100 \<noteq> 0 \<or> y mod 400 = 0))"

definition days_in_month :: "nat \<Rightarrow> nat \<Rightarrow> nat" where
  "days_in_month y m =
     (if m = 2 then (if is_leap y then 29 else 28)
      else if m = 4 \<or> m = 6 \<or> m = 9 \<or> m = 11 then 30 else 31)"

text \<open>The check made when the date object is built.\<close>

definition valid_date :: "date \<Rightarrow> bool" where
  "valid_date dt =
     (1 \<le> year dt \<and> year dt \<le> 9999 \<and> 1 \<le> month dt \<and> month dt \<le> 12 \<and>
      1 \<le> day dt \<and> day dt \<le> days_in_month (year dt) (month dt))"

definition strptime :: "string \<Rightarrow> string \<Rightarrow> py_error + date" where
  "strptime data_string format =
     (case match_format (parse_format format) data_string of
        [] \<Rightarrow> Inl ValueError
      | (found, rest) # _ \<Rightarrow>
          if rest \<noteq> [] then Inl ValueError
          else (let dt = foldl set_field (Date 1900 1 1) found in
                if valid_date dt then Inr dt else Inl ValueError))"

definition DATE_FORMATS :: "string list" where
  "DATE_FORMATS = [''%m/%d/%y'', ''%d-%b-%y'', ''%Y-%m-%d'']"

text \<open>\<open>str.strip()\<close> removes the ASCII white space at both ends.\<close>

definition is_space :: "char \<Rightarrow> bool" where
  "is_space c =
     (let n = (of_char c :: nat) in (9 \<le> n \<and> n \<le> 13) \<or> (28 \<le> n \<and> n \<le> 32))"

definition strip :: "string \<Rightarrow> string" where
  "strip s = rev (dropWhile is_space (rev (dropWhile is_space s)))"

text \<open>
  The loop of lines 64 to 68: the first format that parses wins; a \<open>ValueError\<close> moves
  on to the next format, any other exception propagates. \<open>None\<close> means the loop ended
  without returning.
\<close>

fun try_formats :: "string list \<Rightarrow> string \<Rightarrow> (py_error + cell) option" where
  "try_formats [] s = None"
| "try_formats (fmt # fmts) s =
     (case strptime s fmt of
        Inr dt \<Rightarrow> Some (Inr (Stamp dt))
      | Inl e \<Rightarrow> if e = ValueError then try_formats fmts s else Some (Inl e))"

text \<open>
  \<open>parse_date\<close>. The parameter \<open>to_datetime\<close> is \<open>pd.to_datetime(_, errors='coerce')\<close> on
  a string: the date it reads, or \<open>None\<close> for \<open>NaT\<close>. The parameter \<open>repr\<close> is Python's
  \<open>str\<close> on a cell that is not a string. Line 62 returns \<open>None\<close>; a string that nothing
  parses ends as \<open>NaT\<close>.
\<close>

definition parse_date ::
  "(string \<Rightarrow> date option) \<Rightarrow> (cell \<Rightarrow> string) \<Rightarrow> cell \<Rightarrow> py_error + cell" where
  "parse_date to_datetime repr date_str =
     (if isna date_str \<or>
         date_str \<in> set [Text ''Pre-PQ Process'', Text ''Date Not Captured'', Text []]
      then Inr PyNone
      else
        (let s = strip (case date_str of Text t \<Rightarrow> t | _ \<Rightarrow> repr date_str) in
         case try_formats DATE_FORMATS s of
           Some result \<Rightarrow> result
         | None \<Rightarrow>
             (case to_datetime s of Some dt \<Rightarrow> Inr (Stamp dt) | None \<Rightarrow> Inr NaT)))"

text \<open>The strings that \<open>parse_date\<close> takes for a missing date before any parsing.\<close>

definition sentinel :: "string \<Rightarrow> bool" where
  "sentinel t = (t = ''Pre-PQ Process'' \<or> t = ''Date Not Captured'' \<or> t = [])"

text \<open>
  A first field of a date string: digits and spaces only, so neither separator occurs
  in it.
\<close>

definition sep_free :: "string \<Rightarrow> bool" where
  "sep_free p = list_all (\<lambda>c. is_digit c \<or> c = CHR '' '') p"

section \<open>Properties of the Column Normalizer\<close>

lemma lower_char_idem: "lower_char (lower_char c) = lower_char c"
proof (cases "65 \<le> (of_char c :: nat) \<and> (of_char c :: nat) \<le> 90")
  case True
  then have "(of_char (char_of (of_char c + 32 :: nat)) :: nat) = of_char c + 32"
    by (simp add: of_char_of)
  with True show ?thesis
    by (simp add: lower_char_def Let_def)
next
  case False
  then show ?thesis
    by (auto simp add: lower_char_def Let_def)
qed

lemma lower_char_underscore: "lower_char (CHR ''_'') = CHR ''_''"
  by (simp add: lower_char_def)

lemma translate_char_underscore: "translate_char transformations (CHR ''_'') = ''_''"
  by (simp add: translate_char_def transformations_def)

lemma translate_char_cases:
  "translate_char transformations c = [] \<or>
   translate_char transformations c = ''_'' \<or>
   (translate_char transformations c = [c] \<and> map_of transformations c = None)"
  by (simp add: translate_char_def transformations_def)

lemma normalize_char_fixed:
  "translate transformations (lower (translate_char transformations (lower_char c))) =
   translate_char transformations (lower_char c)"
proof -
  let ?d = "lower_char c"
  consider (del) "translate_char transformations ?d = []"
    | (und) "translate_char transformations ?d = ''_''"
    | (keep) "translate_char transformations ?d = [?d]" "map_of transformations ?d = None"
    using translate_char_cases [of ?d] by auto
  then show ?thesis
  proof cases
    case del
    then show ?thesis by (simp add: translate_def lower_def)
  next
    case und
    then show ?thesis
      by (simp add: translate_def lower_def lower_char_underscore translate_char_underscore)
  next
    case keep
    then show ?thesis
      by (simp add: translate_def lower_def lower_char_idem)
  qed
qed

lemma lower_append: "lower (xs @ ys) = lower xs @ lower ys"
  by (simp add: lower_def)

lemma translate_append: "translate tbl (xs @ ys) = translate tbl xs @ translate tbl ys"
  by (simp add: translate_def)

lemma normalize_column_Cons:
  "normalize_column (c # cs) =
   translate_char transformations (lower_char c) @ normalize_column cs"
  by (simp add: normalize_column_def translate_def lower_def)

text \<open>
  Claim C7. Column-name normalization is idempotent: normalizing an already normalized
  name gives the same name.
\<close>

theorem normalize_column_idempotent:
  "normalize_column (normalize_column c) = normalize_column c"
proof (induction c)
  case Nil
  show ?case by (simp add: normalize_column_def translate_def lower_def)
next
  case (Cons a cs)
  have "normalize_column (normalize_column (a # cs)) =
        translate transformations (lower (translate_char transformations (lower_char a)))
        @ normalize_column (normalize_column cs)"
    by (simp add: normalize_column_Cons)
       (simp add: normalize_column_def lower_append translate_append)
  then show ?case
    by (simp add: normalize_char_fixed Cons.IH normalize_column_Cons)
qed

section \<open>Properties of the Persistence Layer\<close>






text \<open>The entries built for a dimension table and for the fact table.\<close>

lemma create_table_query_countries:
  "create_table_query ''countries'' [(''country_name'', ''object''), (''country_id'', ''int64'')] [] =
   ''CREATE TABLE IF NOT EXISTS '' @ [CHR 0x22] @ ''countries'' @ [CHR 0x22] @
   '' (country_name TEXT, country_id BIGINT NOT NULL PRIMARY KEY)''"
  by (simp add: create_table_query_def columns_def_def column_def_def get_column_type_def
      column_types_def sql_identifier_def endswith_def)

lemma columns_def_deliveries:
  "columns_def ''deliveries'' [(''delivery_id'', ''int64''), (''country_id'', ''int64'')]
     [\<lparr>fk_column = ''country_id'', ref_table = ''countries'', ref_column = ''country_id''\<rparr>] =
   [''delivery_id BIGINT NOT NULL PRIMARY KEY'', ''country_id BIGINT'',
    ''FOREIGN KEY (country_id) REFERENCES countries (country_id)'']"
  by (simp add: columns_def_def column_def_def get_column_type_def
      column_types_def endswith_def foreign_key_def_def)

section \<open>Properties of the Dimension Extractor\<close>

lemma set_drop_duplicates: "set (drop_duplicates xs) = set xs"
  by (induction xs rule: drop_duplicates.induct) auto

lemma distinct_drop_duplicates: "distinct (drop_duplicates xs)"
  by (induction xs rule: drop_duplicates.induct) (auto simp add: set_drop_duplicates)







lemma dimension_fst: "map fst (dimension keys) = drop_duplicates keys"
proof -
  let ?u = "drop_duplicates keys"
  have "map fst (dimension keys) = map fst (zip ?u [0..<length ?u])"
    by (simp add: dimension_def reset_index_def split_def comp_def)
  also have "\<dots> = ?u" by simp
  finally show ?thesis .
qed



lemma map_drop_duplicates_by:
  "map label (drop_duplicates_by label xs) = drop_duplicates (map label xs)"
proof (induction label xs rule: drop_duplicates_by.induct)
  case (1 label)
  show ?case by simp
next
  case (2 label x xs)
  have "filter (\<lambda>y. y \<noteq> label x) (map label xs) =
        map label (filter (\<lambda>y. label y \<noteq> label x) xs)"
    by (simp add: filter_map comp_def)
  with 2 show ?case by simp
qed



lemma dimension_by_fst: "map fst (dimension_by label keys) = drop_duplicates_by label keys"
proof -
  let ?u = "drop_duplicates_by label keys"
  have "map fst (dimension_by label keys) = map fst (zip ?u [0..<length ?u])"
    by (simp add: dimension_by_def reset_index_def split_def comp_def)
  also have "\<dots> = ?u" by simp
  finally show ?thesis .
qed





lemma filter_unique:
  "distinct (map f tbl) \<Longrightarrow> k \<in> set (map f tbl) \<Longrightarrow> \<exists>d. filter (\<lambda>d. f d = k) tbl = [d]"
proof (induction tbl)
  case Nil
  then show ?case by simp
next
  case (Cons d tbl)
  show ?case
  proof (cases "f d = k")
    case True
    with Cons.prems have "k \<notin> set (map f tbl)" by auto
    then have "filter (\<lambda>d. f d = k) tbl = []"
      by (auto simp add: filter_empty_conv)
    with True show ?thesis by simp
  next
    case False
    with Cons show ?thesis by auto
  qed
qed

lemma map_of_filter:
  "map_of (map (\<lambda>d. (f d, g d)) tbl) k =
     (case filter (\<lambda>d. f d = k) tbl of [] \<Rightarrow> None | d # _ \<Rightarrow> Some (g d))"
  by (induction tbl) auto

lemma merge_left_key_of:
  assumes "distinct (map (\<lambda>d. label (fst d)) tbl)"
    and "\<forall>l \<in> set left. label (key l) \<in> set (map (\<lambda>d. label (fst d)) tbl)"
  shows "merge_left left key label tbl = map (\<lambda>l. (l, key_of label tbl (key l))) left"
  using assms(2)
proof (induction left)
  case Nil
  show ?case by (simp add: merge_left_def)
next
  case (Cons l left)
  then have "label (key l) \<in> set (map (\<lambda>d. label (fst d)) tbl)" by simp
  from filter_unique [OF assms(1) this]
  obtain d where d: "filter (\<lambda>d. label (fst d) = label (key l)) tbl = [d]" by blast
  then have "key_of label tbl (key l) = Some (snd d)"
    by (simp add: key_of_def map_of_filter [of "\<lambda>d. label (fst d)" snd])
  moreover have "merge_left left key label tbl = map (\<lambda>l. (l, key_of label tbl (key l))) left"
    using Cons by simp
  ultimately show ?case
    using d by (simp add: merge_left_def)
qed

lemma fst_set_merge_left: "fst ` set (merge_left left key label tbl) = set left"
proof (induction left)
  case Nil
  show ?case by (simp add: merge_left_def)
next
  case (Cons l left)
  have "fst ` set (case filter (\<lambda>d. label (fst d) = label (key l)) tbl of
                     [] \<Rightarrow> [(l, None)] | ms \<Rightarrow> map (\<lambda>d. (l, Some (snd d))) ms) = {l}"
    by (cases "filter (\<lambda>d. label (fst d) = label (key l)) tbl") (auto simp add: image_iff)
  moreover have "fst ` set (merge_left left key label tbl) = set left" by (rule Cons.IH)
  ultimately show ?case
    by (simp add: merge_left_def image_Un)
qed

lemma one_missing_kind_inj: "one_missing_kind ks \<Longrightarrow> inj_on na_label (set ks)"
proof (rule inj_onI)
  fix a b
  assume one: "one_missing_kind ks" and a: "a \<in> set ks" and b: "b \<in> set ks"
    and eq: "na_label a = na_label b"
  show "a = b"
  proof (cases "isna a")
    case False
    with eq show ?thesis by (auto simp add: na_label_def split: if_splits)
  next
    case True
    with eq have nb: "isna b" by (auto simp add: na_label_def split: if_splits)
    from one have "card (set (filter isna ks)) \<le> 1"
      by (simp add: one_missing_kind_def length_remdups_card_conv)
    moreover from a b True nb have "a \<in> set (filter isna ks)" "b \<in> set (filter isna ks)"
      by simp_all
    ultimately show ?thesis
      by (metis List.finite_set card_le_Suc0_iff_eq One_nat_def)
  qed
qed

lemma map_label_fst: "map (\<lambda>d. label (fst d)) tbl = map label (map fst tbl)"
  by (simp add: comp_def)

lemma dimension_labels:
  "map (\<lambda>d. label (fst d)) (dimension ks) = map label (drop_duplicates ks)"
  by (simp only: map_label_fst dimension_fst)

lemma dimension_by_labels:
  "map (\<lambda>d. label (fst d)) (dimension_by label ks) = drop_duplicates (map label ks)"
  by (simp only: map_label_fst dimension_by_fst map_drop_duplicates_by)

lemma dimension_label_distinct:
  assumes "one_missing_kind ks"
  shows "distinct (map (\<lambda>d. na_label (fst d)) (dimension ks))"
proof -
  have "inj_on na_label (set (drop_duplicates ks))"
    using one_missing_kind_inj [OF assms] by (simp only: set_drop_duplicates)
  then have "distinct (map na_label (drop_duplicates ks))"
    using distinct_drop_duplicates [of ks] by (simp only: distinct_map simp_thms)
  then show ?thesis by (simp only: dimension_labels)
qed

lemma merge_left_dimension:
  assumes "one_missing_kind ks" and "key ` set left \<subseteq> set ks"
  shows "merge_left left key na_label (dimension ks) =
         map (\<lambda>l. (l, key_of na_label (dimension ks) (key l))) left"
proof (rule merge_left_key_of [OF dimension_label_distinct [OF assms(1)]])
  have "set (map (\<lambda>d. na_label (fst d)) (dimension ks)) = na_label ` set ks"
    by (simp only: dimension_labels set_map set_drop_duplicates)
  moreover have "\<forall>l \<in> set left. na_label (key l) \<in> na_label ` set ks"
    using assms(2) by blast
  ultimately
  show "\<forall>l \<in> set left. na_label (key l) \<in> set (map (\<lambda>d. na_label (fst d)) (dimension ks))"
    by (simp only:)
qed

lemma merge_left_dimension_by:
  assumes "key ` set left \<subseteq> set ks"
  shows "merge_left left key label (dimension_by label ks) =
         map (\<lambda>l. (l, key_of label (dimension_by label ks) (key l))) left"
proof (rule merge_left_key_of)
  show "distinct (map (\<lambda>d. label (fst d)) (dimension_by label ks))"
    by (simp only: dimension_by_labels distinct_drop_duplicates)
  have "set (map (\<lambda>d. label (fst d)) (dimension_by label ks)) = label ` set ks"
    by (simp only: dimension_by_labels set_map set_drop_duplicates)
  moreover have "\<forall>l \<in> set left. label (key l) \<in> label ` set ks"
    using assms by blast
  ultimately
  show "\<forall>l \<in> set left. label (key l) \<in> set (map (\<lambda>d. label (fst d)) (dimension_by label ks))"
    by (simp only:)
qed

lemma df_with_ids_eq:
  assumes "one_missing_kind (map country df)" "one_missing_kind (map vendor df)"
    "one_missing_kind (map shipment_mode df)"
  shows "df_with_ids (create_dimension_tables df) = map (fact_row (create_dimension_tables df)) df"
proof -
  let ?c = "dimension (map country df)"
  let ?v = "dimension (map vendor df)"
  let ?t = "dimension (map shipment_mode df)"
  let ?p = "dimension_by (map na_label) (map product_columns df)"
  let ?m1 = "merge_left df country na_label ?c"
  let ?m2 = "merge_left ?m1 (\<lambda>m. vendor (fst m)) na_label ?v"
  let ?m3 = "merge_left ?m2 (\<lambda>m. shipment_mode (fst (fst m))) na_label ?t"
  let ?m4 = "merge_left ?m3 (\<lambda>m. product_columns (fst (fst (fst m)))) (map na_label) ?p"
  have m1: "?m1 = map (\<lambda>l. (l, key_of na_label ?c (country l))) df"
    by (rule merge_left_dimension [OF assms(1)]) simp
  have m2: "?m2 = map (\<lambda>l. (l, key_of na_label ?v (vendor (fst l)))) ?m1"
    by (rule merge_left_dimension [OF assms(2)], simp only: m1) auto
  have m3: "?m3 = map (\<lambda>l. (l, key_of na_label ?t (shipment_mode (fst (fst l))))) ?m2"
    by (rule merge_left_dimension [OF assms(3)], simp only: m2, simp only: m1) auto
  have m4: "?m4 = map (\<lambda>l. (l, key_of (map na_label) ?p (product_columns (fst (fst (fst l)))))) ?m3"
    by (rule merge_left_dimension_by, simp only: m3, simp only: m2, simp only: m1) auto
  have "map select_final ?m4 =
        map (fact_row \<lparr>df_with_ids = map select_final ?m4, countries = ?c, vendors = ?v,
                       transport_modes = ?t, products = ?p\<rparr>) df"
    by (simp only: m4, simp only: m3, simp only: m2, simp only: m1)
       (simp add: select_final_def fact_row_def comp_def)
  then show ?thesis
    by (simp add: create_dimension_tables_def Let_def)
qed

text \<open>
  Claim C10, as amended. For every input in which none of the columns \<open>country\<close>,
  \<open>vendor\<close> and \<open>shipment_mode\<close> holds two kinds of missing value,
  \<open>create_dimension_tables\<close> preserves the fact rows: the fact table has one row per input
  row, in the same order; the delivery identifier, the three dates and the numeric
  measures of each row are those of the input row; and the key columns hold the
  surrogate keys of the row's natural keys.
\<close>

theorem fact_rows_preserved:
  assumes "one_missing_kind (map country df)" "one_missing_kind (map vendor df)"
    "one_missing_kind (map shipment_mode df)"
  shows
  "length (df_with_ids (create_dimension_tables df)) = length df \<and>
   map (\<lambda>f. (delivery_id f, scheduled_delivery_date_f f, delivered_to_client_date_f f,
              delivery_recorded_date_f f, line_item_quantity_f f, line_item_value_f f,
              unit_price_f f, weight_kilograms_f f, freight_cost_usd_f f,
              line_item_insurance_usd_f f))
       (df_with_ids (create_dimension_tables df)) =
   map (\<lambda>r. (id_col r, scheduled_delivery_date r, delivered_to_client_date r,
              delivery_recorded_date r, line_item_quantity r, line_item_value r,
              unit_price r, weight_kilograms r, freight_cost_usd r,
              line_item_insurance_usd r)) df \<and>
   map (\<lambda>f. (country_id f, vendor_id f, mode_id f, product_id f))
       (df_with_ids (create_dimension_tables df)) =
   map (\<lambda>r. (key_of na_label (countries (create_dimension_tables df)) (country r),
              key_of na_label (vendors (create_dimension_tables df)) (vendor r),
              key_of na_label (transport_modes (create_dimension_tables df)) (shipment_mode r),
              key_of (map na_label) (products (create_dimension_tables df)) (product_columns r))) df"
  by (simp only: df_with_ids_eq [OF assms]) (simp add: fact_row_def comp_def)

lemma country_row_columns:
  "id_col (country_row n c) = Num n" "country (country_row n c) = c"
  "vendor (country_row n c) = Text ''SCMS''" "shipment_mode (country_row n c) = Text ''Air''"
  by (simp_all add: country_row_def example_row_def)

theorem fact_rows_preserved_witness:
  "one_missing_kind (map country [country_row 1 NaN, country_row 2 (Text ''Vietnam''), country_row 3 NaN]) \<and>
   one_missing_kind (map vendor [country_row 1 NaN, country_row 2 (Text ''Vietnam''), country_row 3 NaN]) \<and>
   one_missing_kind (map shipment_mode [country_row 1 NaN, country_row 2 (Text ''Vietnam''), country_row 3 NaN]) \<and>
   length (df_with_ids (create_dimension_tables
      [country_row 1 NaN, country_row 2 (Text ''Vietnam''), country_row 3 NaN])) = 3 \<and>
   map delivery_id (df_with_ids (create_dimension_tables
      [country_row 1 NaN, country_row 2 (Text ''Vietnam''), country_row 3 NaN])) =
     [Num 1, Num 2, Num 3]"
proof -
  let ?df = "[country_row 1 NaN, country_row 2 (Text ''Vietnam''), country_row 3 NaN]"
  let ?X = "df_with_ids (create_dimension_tables ?df)"
  have a: "one_missing_kind (map country ?df)"
    by (simp add: one_missing_kind_def country_row_columns isna_def)
  have b: "one_missing_kind (map vendor ?df)"
    by (simp add: one_missing_kind_def country_row_columns isna_def)
  have c: "one_missing_kind (map shipment_mode ?df)"
    by (simp add: one_missing_kind_def country_row_columns isna_def)
  note preserved = fact_rows_preserved [OF a b c]
  from preserved have len: "length ?X = length ?df" by (rule conjunct1)
  from preserved have
    "map (\<lambda>f. (delivery_id f, scheduled_delivery_date_f f, delivered_to_client_date_f f,
              delivery_recorded_date_f f, line_item_quantity_f f, line_item_value_f f,
              unit_price_f f, weight_kilograms_f f, freight_cost_usd_f f,
              line_item_insurance_usd_f f)) ?X =
     map (\<lambda>r. (id_col r, scheduled_delivery_date r, delivered_to_client_date r,
              delivery_recorded_date r, line_item_quantity r, line_item_value r,
              unit_price r, weight_kilograms r, freight_cost_usd r,
              line_item_insurance_usd r)) ?df"
    by (rule conjunct1 [OF conjunct2])
  then have "map fst (map (\<lambda>f. (delivery_id f, scheduled_delivery_date_f f, delivered_to_client_date_f f,
              delivery_recorded_date_f f, line_item_quantity_f f, line_item_value_f f,
              unit_price_f f, weight_kilograms_f f, freight_cost_usd_f f,
              line_item_insurance_usd_f f)) ?X) =
     map fst (map (\<lambda>r. (id_col r, scheduled_delivery_date r, delivered_to_client_date r,
              delivery_recorded_date r, line_item_quantity r, line_item_value r,
              unit_price r, weight_kilograms r, freight_cost_usd r,
              line_item_insurance_usd r)) ?df)"
    by (rule arg_cong)
  then have ids: "map delivery_id ?X = [Num 1, Num 2, Num 3]"
    by (simp only: map_map comp_def fst_conv list.map country_row_columns)
  from len have "length ?X = 3" by simp
  with a b c ids show ?thesis by (intro conjI)
qed

lemma delivery_ids_of_rows:
  "set (map delivery_id (df_with_ids (create_dimension_tables df))) = set (map id_col df)"
proof -
  let ?c = "dimension (map country df)"
  let ?v = "dimension (map vendor df)"
  let ?t = "dimension (map shipment_mode df)"
  let ?p = "dimension_by (map na_label) (map product_columns df)"
  let ?m1 = "merge_left df country na_label ?c"
  let ?m2 = "merge_left ?m1 (\<lambda>m. vendor (fst m)) na_label ?v"
  let ?m3 = "merge_left ?m2 (\<lambda>m. shipment_mode (fst (fst m))) na_label ?t"
  let ?m4 = "merge_left ?m3 (\<lambda>m. product_columns (fst (fst (fst m)))) (map na_label) ?p"
  have "(\<lambda>m. fst (fst (fst (fst m)))) ` set ?m4 = fst ` fst ` fst ` fst ` set ?m4"
    by (simp add: image_image)
  also have "\<dots> = set df"
    by (simp only: fst_set_merge_left)
  finally have rows: "(\<lambda>m. fst (fst (fst (fst m)))) ` set ?m4 = set df" .
  have "delivery_id (select_final m) = id_col (fst (fst (fst (fst m))))" for m
    by (simp add: select_final_def split_def)
  then have "set (map delivery_id (map select_final ?m4)) =
             id_col ` (\<lambda>m. fst (fst (fst (fst m)))) ` set ?m4"
    by (simp add: image_image)
  with rows show ?thesis
    by (simp add: create_dimension_tables_def Let_def)
qed

lemma fact_after_first_merge:
  assumes "one_missing_kind (map vendor df)" "one_missing_kind (map shipment_mode df)"
  shows "map (\<lambda>f. (delivery_id f, country_id f)) (df_with_ids (create_dimension_tables df)) =
         map (\<lambda>m. (id_col (fst m), snd m))
           (merge_left df country na_label (dimension (map country df)))"
proof -
  let ?c = "dimension (map country df)"
  let ?v = "dimension (map vendor df)"
  let ?t = "dimension (map shipment_mode df)"
  let ?p = "dimension_by (map na_label) (map product_columns df)"
  let ?m1 = "merge_left df country na_label ?c"
  let ?m2 = "merge_left ?m1 (\<lambda>m. vendor (fst m)) na_label ?v"
  let ?m3 = "merge_left ?m2 (\<lambda>m. shipment_mode (fst (fst m))) na_label ?t"
  let ?m4 = "merge_left ?m3 (\<lambda>m. product_columns (fst (fst (fst m)))) (map na_label) ?p"
  have "fst ` set ?m1 = set df" by (rule fst_set_merge_left)
  then have rows: "fst m \<in> set df" if "m \<in> set ?m1" for m
    using that by blast
  have m2: "?m2 = map (\<lambda>l. (l, key_of na_label ?v (vendor (fst l)))) ?m1"
    by (rule merge_left_dimension [OF assms(1)]) (force dest: rows)
  have m3: "?m3 = map (\<lambda>l. (l, key_of na_label ?t (shipment_mode (fst (fst l))))) ?m2"
    by (rule merge_left_dimension [OF assms(2)], simp only: m2) (force dest: rows)
  have m4: "?m4 = map (\<lambda>l. (l, key_of (map na_label) ?p (product_columns (fst (fst (fst l)))))) ?m3"
    by (rule merge_left_dimension_by, simp only: m3, simp only: m2) (force dest: rows)
  have "map (\<lambda>f. (delivery_id f, country_id f)) (map select_final ?m4) =
        map (\<lambda>m. (id_col (fst m), snd m)) ?m1"
    by (simp only: m4, simp only: m3, simp only: m2)
       (simp add: select_final_def comp_def split_def)
  then show ?thesis
    by (simp add: create_dimension_tables_def Let_def)
qed

lemma fact_pairs_on_mixed_missing:
  "map (\<lambda>f. (delivery_id f, country_id f)) (df_with_ids (create_dimension_tables
      [country_row 1 PyNone, country_row 2 NaN, country_row 3 (Text ''Vietnam'')])) =
     [(Num 1, Some 1), (Num 1, Some 2), (Num 2, Some 1), (Num 2, Some 2), (Num 3, Some 3)]"
proof -
  let ?df = "[country_row 1 PyNone, country_row 2 NaN, country_row 3 (Text ''Vietnam'')]"
  have v: "one_missing_kind (map vendor ?df)"
    by (simp add: one_missing_kind_def country_row_columns isna_def)
  have t: "one_missing_kind (map shipment_mode ?df)"
    by (simp add: one_missing_kind_def country_row_columns isna_def)
  have c: "dimension (map country ?df) = [(PyNone, 1), (NaN, 2), (Text ''Vietnam'', 3)]"
    by (simp add: dimension_def reset_index_def country_row_columns upt_rec)
  have "map (\<lambda>m. (id_col (fst m), snd m))
          (merge_left ?df country na_label (dimension (map country ?df))) =
        [(Num 1, Some 1), (Num 1, Some 2), (Num 2, Some 1), (Num 2, Some 2), (Num 3, Some 3)]"
    by (simp only: c) (simp add: merge_left_def country_row_columns na_label_def isna_def)
  with fact_after_first_merge [OF v t] show ?thesis by (simp only:)
qed

text \<open>
  Claim C10 as stated fails: with the countries \<open>None\<close>, \<open>NaN\<close> and a name in three rows,
  the countries table has a key for \<open>None\<close> and one for \<open>NaN\<close>, the merge matches a
  missing country with both, and the fact table has five rows for the three input
  rows.
\<close>

theorem fact_rows_multiply_on_mixed_missing:
  "length [country_row 1 PyNone, country_row 2 NaN, country_row 3 (Text ''Vietnam'')] = 3 \<and>
   length (df_with_ids (create_dimension_tables
      [country_row 1 PyNone, country_row 2 NaN, country_row 3 (Text ''Vietnam'')])) = 5 \<and>
   map delivery_id (df_with_ids (create_dimension_tables
      [country_row 1 PyNone, country_row 2 NaN, country_row 3 (Text ''Vietnam'')])) =
     [Num 1, Num 1, Num 2, Num 2, Num 3]"
proof -
  let ?X = "df_with_ids (create_dimension_tables
      [country_row 1 PyNone, country_row 2 NaN, country_row 3 (Text ''Vietnam'')])"
  have "map fst (map (\<lambda>f. (delivery_id f, country_id f)) ?X) =
        map fst [(Num 1, Some 1), (Num 1, Some 2), (Num 2, Some 1), (Num 2, Some 2),
                 (Num 3, Some (3 :: nat))]"
    by (simp only: fact_pairs_on_mixed_missing)
  then have ids: "map delivery_id ?X = [Num 1, Num 1, Num 2, Num 2, Num 3]"
    by (simp only: map_map comp_def fst_conv list.map)
  then have "length (map delivery_id ?X) = 5" by simp
  then have "length ?X = 5" by (simp only: length_map)
  with ids show ?thesis by simp
qed

text \<open>
  Three rows shipped by air, by truck and by air again: two transport modes, numbered in
  the order of first appearance.
\<close>

lemma air_truck_scenario:
  "transport_modes (create_dimension_tables
      [mode_row 1 (Text ''Air'') (Num 2), mode_row 2 (Text ''Truck'') (Num 2),
       mode_row 3 (Text ''Air'') (Num 2)]) =
     [(Text ''Air'', 1), (Text ''Truck'', 2)]"
  by (simp add: create_dimension_tables_def Let_def dimension_def reset_index_def
      mode_row_def example_row_def upt_rec)

section \<open>Properties of the Reference Resolver\<close>

lemma re_match_id_shape:
  "re_match_id s = Some m \<Longrightarrow>
   \<exists>ds. m = CHR '':'' # ds \<and> ds \<noteq> [] \<and> list_all is_digit ds \<and> ds = takeWhile is_digit (tl s)"
  by (cases s) (auto simp add: list_all_iff dest: set_takeWhileD split: if_splits)

lemma re_search_of_match: "re_match_id s = Some m \<Longrightarrow> re_search_id s = Some m"
  by (cases s) (auto split: if_splits)

lemma colon_not_digit: "is_digit c \<Longrightarrow> c \<noteq> CHR '':''"
  by (auto simp add: is_digit_def)

lemma replace_colon_digits: "list_all is_digit ds \<Longrightarrow> replace_colon (CHR '':'' # ds) = ds"
  by (auto simp add: replace_colon_def list_all_iff filter_id_conv dest: colon_not_digit)

lemma lookup_reference_matched:
  assumes "re_match_id s = Some m"
  shows "\<exists>k. py_int (replace_colon m) = Inr k \<and>
         lookup_reference s dataset column =
           (case loc_id dataset k column of [] \<Rightarrow> Inr (Text s) | x # _ \<Rightarrow> Inr x)"
proof -
  from re_match_id_shape [OF assms] obtain ds where
    ds: "m = CHR '':'' # ds" "ds \<noteq> []" "list_all is_digit ds" by blast
  then have "replace_colon m = ds" by (simp add: replace_colon_digits)
  with ds obtain k where k: "py_int (replace_colon m) = Inr k"
    by (simp add: py_int_def)
  with re_search_of_match [OF assms] show ?thesis
    by (simp add: lookup_reference_def)
qed

lemma resolve_id_reference_total: "\<exists>c. resolve_id_reference v dataset column = Inr c"
proof (cases "is_reference v")
  case False
  then show ?thesis by (simp add: resolve_id_reference_def)
next
  case True
  then obtain s m where v: "v = Text s" and m: "re_match_id s = Some m"
    by (auto simp add: is_reference_def split: cell.splits)
  from lookup_reference_matched [OF m, of dataset column] obtain k where
    "lookup_reference s dataset column =
       (case loc_id dataset k column of [] \<Rightarrow> Inr (Text s) | x # _ \<Rightarrow> Inr x)" by blast
  with True v show ?thesis
    by (cases "loc_id dataset k column") (simp_all add: resolve_id_reference_def)
qed

lemma re_match_id_iff: "re_match_id s \<noteq> None \<longleftrightarrow> occurs_at_start s"
proof
  assume "re_match_id s \<noteq> None"
  then obtain cs where s: "s = CHR '':'' # cs" and t: "takeWhile is_digit cs \<noteq> []"
    by (cases s) (auto split: if_splits)
  from t obtain d ds where cs: "cs = d # ds" and d: "is_digit d"
    by (cases cs) (auto split: if_splits)
  with s have "s = CHR '':'' # d # [] @ ds \<and> is_digit d" by simp
  then show "occurs_at_start s" unfolding occurs_at_start_def by blast
next
  assume "occurs_at_start s"
  then show "re_match_id s \<noteq> None"
    by (auto simp add: occurs_at_start_def)
qed

lemma re_search_id_iff: "re_search_id s \<noteq> None \<longleftrightarrow> occurs_anywhere s"
proof (induction s)
  case Nil
  show ?case by (simp add: occurs_anywhere_def occurs_at_start_def)
next
  case (Cons c cs)
  show ?case
  proof (cases "re_match_id (c # cs)")
    case (Some m)
    then have "occurs_at_start (c # cs)" using re_match_id_iff [of "c # cs"] by simp
    then have "occurs_anywhere (c # cs)"
      unfolding occurs_anywhere_def by (metis append_Nil)
    with Some show ?thesis by simp
  next
    case None
    then have no: "\<not> occurs_at_start (c # cs)" using re_match_id_iff [of "c # cs"] by simp
    have "occurs_anywhere (c # cs) \<longleftrightarrow> occurs_anywhere cs"
    proof
      assume "occurs_anywhere (c # cs)"
      then obtain pre suf where ps: "c # cs = pre @ suf" "occurs_at_start suf"
        unfolding occurs_anywhere_def by blast
      with no obtain pre' where "pre = c # pre'" by (cases pre) auto
      with ps have "cs = pre' @ suf" by simp
      with ps(2) show "occurs_anywhere cs" unfolding occurs_anywhere_def by blast
    next
      assume "occurs_anywhere cs"
      then obtain pre suf where "cs = pre @ suf" "occurs_at_start suf"
        unfolding occurs_anywhere_def by blast
      then have "c # cs = (c # pre) @ suf \<and> occurs_at_start suf" by simp
      then show "occurs_anywhere (c # cs)" unfolding occurs_anywhere_def by blast
    qed
    with None Cons show ?thesis by simp
  qed
qed

lemma guard_start_only:
  "is_reference v \<longleftrightarrow> (\<exists>s. v = Text s \<and> occurs_at_start s)"
  by (cases v) (simp_all add: is_reference_def re_match_id_iff [symmetric])

lemma pattern_occurs_inside_text: "occurs_anywhere ''See ASN-93 (ID#:1281)''"
  unfolding occurs_anywhere_def occurs_at_start_def
  by (rule exI [of _ "''See ASN-93 (ID#''"], rule exI [of _ "'':1281)''"])
     (auto simp add: is_digit_def)

text \<open>
  Claim C1. The claim asks that resolution be attempted whenever the pattern occurs
  anywhere in the string. The code does not do so: for the text
  \<open>See ASN-93 (ID#:1281)\<close> the pattern occurs and line 84 would read the identifier
  1281 out of it, but the guard of line 82 uses \<open>re.match\<close> and fails, so the value is
  returned as it is although the row 1281 exists; the same reference at the start of a
  string is resolved to the row's value.
\<close>

theorem reference_inside_text_not_resolved:
  "occurs_anywhere ''See ASN-93 (ID#:1281)'' \<and>
   extracted_id ''See ASN-93 (ID#:1281)'' = Some 1281 \<and>
   \<not> is_reference (Text ''See ASN-93 (ID#:1281)'') \<and>
   resolve_id_reference (Text ''See ASN-93 (ID#:1281)'')
     \<lparr>id_dtype = Int64, frame_rows = [example_row 1281 (Num (501 / 2))]\<rparr> weight_kilograms
   = Inr (Text ''See ASN-93 (ID#:1281)'') \<and>
   resolve_id_reference (Text '':1281'')
     \<lparr>id_dtype = Int64, frame_rows = [example_row 1281 (Num (501 / 2))]\<rparr> weight_kilograms
   = Inr (Num (501 / 2))"
proof -
  have a: "extracted_id ''See ASN-93 (ID#:1281)'' = Some 1281"
    by (simp add: extracted_id_def replace_colon_def py_int_def is_digit_def digit_val_def)
  have b: "\<not> is_reference (Text ''See ASN-93 (ID#:1281)'')"
    by (simp add: is_reference_def)
  have c: "resolve_id_reference (Text '':1281'')
     \<lparr>id_dtype = Int64, frame_rows = [example_row 1281 (Num (501 / 2))]\<rparr> weight_kilograms
     = Inr (Num (501 / 2))"
    by (simp add: resolve_id_reference_def is_reference_def lookup_reference_def loc_id_def
      id_scalar_def replace_colon_def py_int_def is_digit_def digit_val_def example_row_def)
  from pattern_occurs_inside_text a b c show ?thesis
    by (simp add: resolve_id_reference_def)
qed













section \<open>Properties of the main pipeline\<close>

lemma apply_series_resolve:
  "apply_series (\<lambda>x. resolve_id_reference x dataset col) xs =
   Inr (map (resolved_value dataset col) xs)"
proof (induction xs)
  case Nil
  show ?case by simp
next
  case (Cons x xs)
  from resolve_id_reference_total [of x dataset col] obtain c where
    "resolve_id_reference x dataset col = Inr c" by blast
  with Cons show ?case by (simp add: resolved_value_def)
qed

lemma those_map_Some:
  "those (map f xs) = Some ys \<Longrightarrow> ys = map (\<lambda>x. case f x of Some y \<Rightarrow> y | None \<Rightarrow> d x) xs"
proof (induction xs arbitrary: ys)
  case Nil
  then show ?case by simp
next
  case (Cons x xs)
  then show ?case by (auto split: option.splits)
qed

lemma those_map_iff:
  "(those (map f xs) \<noteq> None) = list_all (\<lambda>x. f x \<noteq> None) xs"
  by (induction xs) (auto split: option.splits)

lemma astype_float_ignore_eq:
  "astype_float_ignore cast series =
     (if list_all (\<lambda>c. float_of_cell cast c \<noteq> None) series
      then astype_float_per_value cast series else series)"
proof (cases "those (map (float_of_cell cast) series)")
  case None
  with those_map_iff [of "float_of_cell cast" series] show ?thesis
    by (simp add: astype_float_ignore_def)
next
  case (Some ys)
  from those_map_Some [OF Some, of "\<lambda>c. c"] Some those_map_iff [of "float_of_cell cast" series]
  show ?thesis
    by (simp add: astype_float_ignore_def astype_float_per_value_def)
qed

lemma length_astype_float_ignore: "length (astype_float_ignore cast series) = length series"
  by (simp add: astype_float_ignore_eq astype_float_per_value_def)

text \<open>
  Claim C3, as amended. The numeric coercion of the resolution step is made on the whole
  column: when every resolved value of the column converts, each becomes its number;
  when any value fails to convert, every value of the column stays as resolution left
  it.
\<close>

theorem resolve_column_whole_column:
  "\<exists>resolved.
     apply_series (\<lambda>x. resolve_id_reference x dataset col)
       (map (\<lambda>r. astype_str repr (col r)) df) = Inr resolved \<and>
     length resolved = length df \<and>
     resolve_column repr cast dataset col df =
       Inr (if list_all (\<lambda>c. float_of_cell cast c \<noteq> None) resolved
            then astype_float_per_value cast resolved else resolved)"
  by (simp add: resolve_column_def apply_series_resolve astype_float_ignore_eq)

text \<open>
  Claim C3 as stated fails: in a column holding \<open>15\<close> and a text that is no number, the
  value \<open>15\<close> stays a string, where a conversion per value would make it a number.
\<close>

theorem coercion_not_per_value:
  "resolve_column (\<lambda>c. ''nan'') float_of_digits
     \<lparr>id_dtype = Int64,
      frame_rows = [freight_row 1 ''15'', freight_row 2 ''Freight Included in Commodity Cost'']\<rparr>
     freight_cost_usd
     [freight_row 1 ''15'', freight_row 2 ''Freight Included in Commodity Cost'']
   = Inr [Text ''15'', Text ''Freight Included in Commodity Cost''] \<and>
   astype_float_per_value float_of_digits [Text ''15'', Text ''Freight Included in Commodity Cost'']
   = [Num 15, Text ''Freight Included in Commodity Cost'']"
  by (simp add: resolve_column_def freight_row_def example_row_def astype_str_def
      resolve_id_reference_def is_reference_def astype_float_ignore_def float_of_cell_def
      float_of_digits_def is_digit_def digit_val_def astype_float_per_value_def)

lemma resolve_column_Inr: "\<exists>vs. resolve_column repr cast dataset col df = Inr vs \<and> length vs = length df"
  by (simp add: resolve_column_def apply_series_resolve length_astype_float_ignore)

lemma map2_update_frame:
  assumes "length vs = length df"
    and "\<And>r v. g (upd r v) = g r"
  shows "map g (map2 upd df vs) = map g df"
  using assms(1)
proof (induction df arbitrary: vs)
  case Nil
  then show ?case by simp
next
  case (Cons r df)
  then show ?case by (cases vs) (simp_all add: assms(2))
qed

lemma filter_map_frame:
  assumes "map g xs = map g ys"
  shows "map (\<lambda>r. h (g r)) (filter (\<lambda>r. p (g r)) xs) = map (\<lambda>r. h (g r)) (filter (\<lambda>r. p (g r)) ys)"
proof -
  have "map (\<lambda>r. h (g r)) (filter (\<lambda>r. p (g r)) xs) = map h (filter p (map g xs))"
    by (simp add: filter_map comp_def)
  also have "\<dots> = map h (filter p (map g ys))" by (simp only: assms)
  also have "\<dots> = map (\<lambda>r. h (g r)) (filter (\<lambda>r. p (g r)) ys)"
    by (simp add: filter_map comp_def)
  finally show ?thesis .
qed

lemma resolve_references_frame:
  "\<exists>resolved. resolve_references repr cast df = Inr resolved \<and>
     map kept_columns resolved = map kept_columns (frame_rows df)"
proof -
  let ?rows = "frame_rows df"
  from resolve_column_Inr [of repr cast df freight_cost_usd ?rows] obtain fs where
    fs: "resolve_column repr cast df freight_cost_usd ?rows = Inr fs" "length fs = length ?rows"
    by blast
  let ?df1 = "map2 (\<lambda>r v. r\<lparr>freight_cost_usd := v\<rparr>) ?rows fs"
  from resolve_column_Inr [of repr cast df weight_kilograms ?df1] obtain ws where
    ws: "resolve_column repr cast df weight_kilograms ?df1 = Inr ws" "length ws = length ?df1"
    by blast
  have a: "map kept_columns ?df1 = map kept_columns ?rows"
    by (rule map2_update_frame) (simp_all add: fs kept_columns_def)
  have b: "map kept_columns (map2 (\<lambda>r v. r\<lparr>weight_kilograms := v\<rparr>) ?df1 ws) =
           map kept_columns ?df1"
    by (rule map2_update_frame) (simp_all add: ws kept_columns_def)
  from fs ws have "resolve_references repr cast df =
        Inr (map2 (\<lambda>r v. r\<lparr>weight_kilograms := v\<rparr>) ?df1 ws)"
    by (simp add: resolve_references_def Let_def)
  with a b show ?thesis by simp
qed

lemma one_missing_kind_subset:
  assumes "one_missing_kind ks" and "set ks' \<subseteq> set ks"
  shows "one_missing_kind ks'"
proof -
  have "set (filter isna ks') \<subseteq> set (filter isna ks)" using assms(2) by auto
  then have "card (set (filter isna ks')) \<le> card (set (filter isna ks))"
    by (rule card_mono [rotated]) simp
  with assms(1) show ?thesis
    by (simp add: one_missing_kind_def length_remdups_card_conv)
qed

lemma one_missing_kind_none: "list_all (\<lambda>c. \<not> isna c) ks \<Longrightarrow> one_missing_kind ks"
proof -
  assume "list_all (\<lambda>c. \<not> isna c) ks"
  then have "filter isna ks = []" by (simp add: filter_empty_conv list_all_iff)
  then show ?thesis by (simp add: one_missing_kind_def)
qed

text \<open>
  Claim C9. Steps 5 to 7 of the pipeline always produce the tables, and a row is left
  out of the fact table if and only if its \<open>shipment_mode\<close> or its
  \<open>line_item_insurance_usd\<close> is missing: the identifiers of the fact table are those of
  the rows with both values present. When the columns \<open>country\<close> and \<open>vendor\<close> hold one
  kind of missing value at most, as in every frame that \<open>read_csv\<close> builds, where it is
  \<open>NaN\<close>, the fact table has exactly these rows, once each and in their order.
\<close>

theorem dropna_rows_excluded:
  "\<exists>T. main_steps repr cast df = Inr T \<and>
     set (map delivery_id (df_with_ids T)) =
     set (map id_col (filter (\<lambda>r. \<not> isna (shipment_mode r) \<and> \<not> isna (line_item_insurance_usd r))
                        (frame_rows df))) \<and>
     (one_missing_kind (map country (frame_rows df)) \<and>
      one_missing_kind (map vendor (frame_rows df)) \<longrightarrow>
      map delivery_id (df_with_ids T) =
      map id_col (filter (\<lambda>r. \<not> isna (shipment_mode r) \<and> \<not> isna (line_item_insurance_usd r))
                   (frame_rows df)))"
proof -
  let ?rows = "frame_rows df"
  let ?P = "\<lambda>r. \<not> isna (shipment_mode r) \<and> \<not> isna (line_item_insurance_usd r)"
  let ?p = "\<lambda>(i :: cell, s, l, c :: cell, v :: cell). \<not> isna s \<and> \<not> isna l"
  from resolve_references_frame [of repr cast df] obtain resolved where
    r: "resolve_references repr cast df = Inr resolved"
    and fr: "map kept_columns resolved = map kept_columns ?rows" by blast
  let ?X = "dropna resolved"
  have X: "?X = filter (\<lambda>r. ?p (kept_columns r)) resolved"
    by (simp add: dropna_def kept_columns_def)
  have rows: "filter ?P ?rows = filter (\<lambda>r. ?p (kept_columns r)) ?rows"
    by (simp add: kept_columns_def)
  have ids: "map id_col ?X = map id_col (filter ?P ?rows)"
    using filter_map_frame [OF fr, of fst ?p]
    by (simp only: X rows) (simp add: kept_columns_def)
  have cs: "map country ?X = map country (filter ?P ?rows)"
    using filter_map_frame [OF fr, of "\<lambda>(i, s, l, c, v). c" ?p]
    by (simp only: X rows) (simp add: kept_columns_def)
  have vs: "map vendor ?X = map vendor (filter ?P ?rows)"
    using filter_map_frame [OF fr, of "\<lambda>(i, s, l, c, v). v" ?p]
    by (simp only: X rows) (simp add: kept_columns_def)
  have T: "main_steps repr cast df = Inr (create_dimension_tables ?X)"
    using r by (simp add: main_steps_def)
  have all: "set (map delivery_id (df_with_ids (create_dimension_tables ?X))) =
             set (map id_col (filter ?P ?rows))"
    by (simp only: delivery_ids_of_rows ids)
  have one: "map delivery_id (df_with_ids (create_dimension_tables ?X)) =
             map id_col (filter ?P ?rows)"
    if c: "one_missing_kind (map country ?rows)" and v: "one_missing_kind (map vendor ?rows)"
  proof -
    have c': "one_missing_kind (map country ?X)"
      by (rule one_missing_kind_subset [OF c]) (auto simp add: cs)
    have v': "one_missing_kind (map vendor ?X)"
      by (rule one_missing_kind_subset [OF v]) (auto simp add: vs)
    have s': "one_missing_kind (map shipment_mode ?X)"
      by (rule one_missing_kind_none) (simp add: dropna_def list_all_iff)
    have "map delivery_id (df_with_ids (create_dimension_tables ?X)) = map id_col ?X"
      by (simp only: df_with_ids_eq [OF c' v' s']) (simp add: fact_row_def comp_def)
    with ids show ?thesis by simp
  qed
  from T all one show ?thesis by blast
qed

lemma mode_row_columns:
  "id_col (mode_row n m i) = Num n" "shipment_mode (mode_row n m i) = m"
  "line_item_insurance_usd (mode_row n m i) = i"
  "country (mode_row n m i) = Text ''Vietnam''" "vendor (mode_row n m i) = Text ''SCMS''"
  by (simp_all add: mode_row_def example_row_def)

theorem dropna_rows_excluded_witness:
  "one_missing_kind (map country [mode_row 1 (Text ''Air'') (Num 2), mode_row 2 NaN (Num 2),
      mode_row 3 (Text ''Truck'') NaN, mode_row 4 (Text ''Truck'') (Num 5)]) \<and>
   one_missing_kind (map vendor [mode_row 1 (Text ''Air'') (Num 2), mode_row 2 NaN (Num 2),
      mode_row 3 (Text ''Truck'') NaN, mode_row 4 (Text ''Truck'') (Num 5)]) \<and>
   (\<exists>T. main_steps (\<lambda>c. ''nan'') float_of_digits
          \<lparr>id_dtype = Int64, frame_rows = [mode_row 1 (Text ''Air'') (Num 2), mode_row 2 NaN (Num 2),
             mode_row 3 (Text ''Truck'') NaN, mode_row 4 (Text ''Truck'') (Num 5)]\<rparr> = Inr T \<and>
        map delivery_id (df_with_ids T) = [Num 1, Num 4])"
proof -
  let ?rows = "[mode_row 1 (Text ''Air'') (Num 2), mode_row 2 NaN (Num 2),
      mode_row 3 (Text ''Truck'') NaN, mode_row 4 (Text ''Truck'') (Num 5)]"
  let ?df = "\<lparr>id_dtype = Int64, frame_rows = ?rows\<rparr>"
  have c: "one_missing_kind (map country (frame_rows ?df))"
    by (simp add: one_missing_kind_def mode_row_columns isna_def)
  have v: "one_missing_kind (map vendor (frame_rows ?df))"
    by (simp add: one_missing_kind_def mode_row_columns isna_def)
  have f: "map id_col (filter (\<lambda>r. \<not> isna (shipment_mode r) \<and> \<not> isna (line_item_insurance_usd r))
                        (frame_rows ?df)) = [Num 1, Num 4]"
    by (simp add: mode_row_columns isna_def)
  from dropna_rows_excluded [of "\<lambda>c. ''nan''" float_of_digits ?df] c v
  obtain T where T: "main_steps (\<lambda>c. ''nan'') float_of_digits ?df = Inr T"
    and l: "map delivery_id (df_with_ids T) =
         map id_col (filter (\<lambda>r. \<not> isna (shipment_mode r) \<and> \<not> isna (line_item_insurance_usd r))
                        (frame_rows ?df))"
    by blast
  from l f have "map delivery_id (df_with_ids T) = [Num 1, Num 4]" by (rule trans)
  with T have "main_steps (\<lambda>c. ''nan'') float_of_digits ?df = Inr T \<and>
        map delivery_id (df_with_ids T) = [Num 1, Num 4]" by (rule conjI)
  then have e: "\<exists>T. main_steps (\<lambda>c. ''nan'') float_of_digits ?df = Inr T \<and>
        map delivery_id (df_with_ids T) = [Num 1, Num 4]" by (rule exI)
  have c': "one_missing_kind (map country ?rows)" using c by simp
  have v': "one_missing_kind (map vendor ?rows)" using v by simp
  from c' v' e show ?thesis by (intro conjI)
qed

text \<open>Of three rows, the two with a missing cell in either column are dropped.\<close>

lemma dropna_scenario:
  "map id_col (dropna [mode_row 1 (Text ''Air'') (Num 2), mode_row 2 NaN (Num 2),
                       mode_row 3 (Text ''Air'') PyNone]) = [Num 1]"
  by (simp add: dropna_def isna_def mode_row_columns)

section \<open>Properties of the Date Parser\<close>

lemma strptime_error: "strptime s fmt = Inl e \<Longrightarrow> e = ValueError"
  by (auto simp add: strptime_def Let_def split: list.splits if_splits prod.splits)

lemma try_formats_cases:
  "try_formats fmts s = None \<or> (\<exists>dt. try_formats fmts s = Some (Inr (Stamp dt)))"
proof (induction fmts)
  case Nil
  show ?case by simp
next
  case (Cons fmt fmts)
  show ?case
  proof (cases "strptime s fmt")
    case (Inl e)
    then have "e = ValueError" by (rule strptime_error)
    with Inl Cons show ?thesis by simp
  next
    case (Inr dt)
    then show ?thesis by simp
  qed
qed

lemma try_formats_none_fail:
  "list_all (\<lambda>fmt. strptime s fmt = Inl ValueError) fmts \<Longrightarrow> try_formats fmts s = None"
  by (induction fmts) simp_all

text \<open>
  Claim C4. \<open>parse_date\<close> returns for every input and never raises: the result is a
  missing value or a date. It is a missing value (\<open>None\<close>) for a missing input, for the
  empty string and for the two sentinel strings, and a missing value (\<open>NaT\<close>, or \<open>None\<close>
  for a sentinel) for every string that none of the three formats parses and the
  fallback parser does not accept.
\<close>

theorem parse_date_never_raises:
  "(\<exists>c. parse_date to_datetime repr v = Inr c \<and> (isna c \<or> (\<exists>dt. c = Stamp dt))) \<and>
   parse_date to_datetime repr PyNone = Inr PyNone \<and>
   parse_date to_datetime repr NaN = Inr PyNone \<and>
   parse_date to_datetime repr NaT = Inr PyNone \<and>
   parse_date to_datetime repr (Text []) = Inr PyNone \<and>
   parse_date to_datetime repr (Text ''Pre-PQ Process'') = Inr PyNone \<and>
   parse_date to_datetime repr (Text ''Date Not Captured'') = Inr PyNone \<and>
   (list_all (\<lambda>fmt. strptime (strip t) fmt = Inl ValueError) DATE_FORMATS \<and>
      to_datetime (strip t) = None \<longrightarrow>
    parse_date to_datetime repr (Text t) = Inr (if sentinel t then PyNone else NaT) \<and>
    isna (if sentinel t then PyNone else NaT))"
proof -
  have total: "\<exists>c. parse_date to_datetime repr v = Inr c \<and> (isna c \<or> (\<exists>dt. c = Stamp dt))"
  proof (cases "isna v \<or> v \<in> set [Text ''Pre-PQ Process'', Text ''Date Not Captured'', Text []]")
    case True
    then have "parse_date to_datetime repr v = Inr PyNone" by (simp add: parse_date_def)
    then show ?thesis by (simp add: isna_def)
  next
    case False
    let ?s = "strip (case v of Text t \<Rightarrow> t | _ \<Rightarrow> repr v)"
    from try_formats_cases [of DATE_FORMATS ?s] show ?thesis
    proof
      assume "try_formats DATE_FORMATS ?s = None"
      with False have "parse_date to_datetime repr v =
          (case to_datetime ?s of Some dt \<Rightarrow> Inr (Stamp dt) | None \<Rightarrow> Inr NaT)"
        by (simp add: parse_date_def Let_def)
      then show ?thesis
        by (cases "to_datetime ?s") (simp_all add: isna_def)
    next
      assume "\<exists>dt. try_formats DATE_FORMATS ?s = Some (Inr (Stamp dt))"
      then obtain dt where "try_formats DATE_FORMATS ?s = Some (Inr (Stamp dt))" by blast
      with False have "parse_date to_datetime repr v = Inr (Stamp dt)"
        by (simp add: parse_date_def Let_def)
      then show ?thesis by simp
    qed
  qed
  have fail: "list_all (\<lambda>fmt. strptime (strip t) fmt = Inl ValueError) DATE_FORMATS \<and>
      to_datetime (strip t) = None \<longrightarrow>
    parse_date to_datetime repr (Text t) = Inr (if sentinel t then PyNone else NaT) \<and>
    isna (if sentinel t then PyNone else NaT)"
  proof (intro impI conjI)
    assume h: "list_all (\<lambda>fmt. strptime (strip t) fmt = Inl ValueError) DATE_FORMATS \<and>
      to_datetime (strip t) = None"
    then have "try_formats DATE_FORMATS (strip t) = None"
      by (simp add: try_formats_none_fail)
    with h show "parse_date to_datetime repr (Text t) = Inr (if sentinel t then PyNone else NaT)"
      by (simp add: parse_date_def Let_def sentinel_def isna_def)
    show "isna (if sentinel t then PyNone else NaT)" by (simp add: isna_def)
  qed
  have fixed:
    "parse_date to_datetime repr PyNone = Inr PyNone"
    "parse_date to_datetime repr NaN = Inr PyNone"
    "parse_date to_datetime repr NaT = Inr PyNone"
    "parse_date to_datetime repr (Text []) = Inr PyNone"
    "parse_date to_datetime repr (Text ''Pre-PQ Process'') = Inr PyNone"
    "parse_date to_datetime repr (Text ''Date Not Captured'') = Inr PyNone"
    by (simp_all add: parse_date_def isna_def)
  from total fixed fail show ?thesis by (intro conjI)
qed

lemma strip_not_a_date: "strip ''not a date'' = ''not a date''"
  by (simp add: strip_def is_space_def)

lemma not_a_date_fails:
  "list_all (\<lambda>fmt. strptime ''not a date'' fmt = Inl ValueError) DATE_FORMATS"
  by code_simp

theorem parse_date_never_raises_witness:
  "list_all (\<lambda>fmt. strptime (strip ''not a date'') fmt = Inl ValueError) DATE_FORMATS \<and>
   parse_date (\<lambda>s. None) (\<lambda>c. ''nan'') (Text ''not a date'') = Inr NaT \<and>
   parse_date (\<lambda>s. None) (\<lambda>c. ''nan'') (Text ''Pre-PQ Process'') = Inr PyNone"
proof -
  have h: "list_all (\<lambda>fmt. strptime (strip ''not a date'') fmt = Inl ValueError) DATE_FORMATS"
    by (simp only: strip_not_a_date not_a_date_fails)
  have ns: "\<not> sentinel ''not a date''" by (simp add: sentinel_def)
  from parse_date_never_raises [of "\<lambda>s. None" "\<lambda>c. ''nan''" PyNone "''not a date''"] h ns
  show ?thesis by simp
qed

lemma two_chars_shape:
  "(v, r) \<in> set (two_chars P Q s) \<Longrightarrow> \<exists>a b. s = a # b # r \<and> P a \<and> Q b"
  by (auto simp add: two_chars_def split: list.splits if_splits)

lemma one_char_shape:
  "(v, r) \<in> set (one_char P s) \<Longrightarrow> \<exists>a. s = a # r \<and> P a"
  by (auto simp add: one_char_def split: list.splits if_splits)

lemma space_digit_shape:
  "(v, r) \<in> set (space_digit s) \<Longrightarrow>
   \<exists>b. s = CHR '' '' # b # r \<and> in_range (CHR ''1'') (CHR ''9'') b"
  by (auto simp add: space_digit_def split: list.splits if_splits)

lemma four_digits_shape:
  "(v, r) \<in> set (four_digits s) \<Longrightarrow>
   \<exists>a b c d. s = a # b # c # d # r \<and> is_digit a \<and> is_digit b \<and> is_digit c \<and> is_digit d"
  by (auto simp add: four_digits_def split: list.splits if_splits)

lemma in_range_sub_digit:
  "in_range lo hi c \<Longrightarrow> is_digit lo \<Longrightarrow> is_digit hi \<Longrightarrow> is_digit c"
  by (auto simp add: in_range_def is_digit_def)

lemma digit_literals:
  "is_digit (CHR ''0'')" "is_digit (CHR ''1'')" "is_digit (CHR ''2'')"
  "is_digit (CHR ''3'')" "is_digit (CHR ''9'')"
  by (simp_all add: is_digit_def)

lemma in_range_ok:
  "in_range lo hi c \<Longrightarrow> is_digit lo \<Longrightarrow> is_digit hi \<Longrightarrow> is_digit c \<or> c = CHR '' ''"
  by (simp add: in_range_sub_digit)

lemma two_chars_prefix:
  assumes "(v, r) \<in> set (two_chars P Q s)"
    and "\<And>a. P a \<Longrightarrow> is_digit a \<or> a = CHR '' ''"
    and "\<And>b. Q b \<Longrightarrow> is_digit b \<or> b = CHR '' ''"
  shows "\<exists>p. s = p @ r \<and> length p \<le> 2 \<and> sep_free p"
proof -
  from two_chars_shape [OF assms(1)] obtain a b where ab: "s = a # b # r" "P a" "Q b" by blast
  from ab assms(2) [of a] assms(3) [of b]
  have "s = [a, b] @ r \<and> length [a, b] \<le> 2 \<and> sep_free [a, b]"
    by (simp add: sep_free_def)
  then show ?thesis by blast
qed

lemma one_char_prefix:
  assumes "(v, r) \<in> set (one_char P s)"
    and "\<And>a. P a \<Longrightarrow> is_digit a \<or> a = CHR '' ''"
  shows "\<exists>p. s = p @ r \<and> length p \<le> 2 \<and> sep_free p"
proof -
  from one_char_shape [OF assms(1)] obtain a where a: "s = a # r" "P a" by blast
  from a assms(2) [of a]
  have "s = [a] @ r \<and> length [a] \<le> 2 \<and> sep_free [a]"
    by (simp add: sep_free_def)
  then show ?thesis by blast
qed

lemma space_digit_prefix:
  assumes "(v, r) \<in> set (space_digit s)"
  shows "\<exists>p. s = p @ r \<and> length p \<le> 2 \<and> sep_free p"
proof -
  from space_digit_shape [OF assms] obtain b where
    b: "s = CHR '' '' # b # r" "in_range (CHR ''1'') (CHR ''9'') b" by blast
  from b(2) have "is_digit b" by (rule in_range_sub_digit) (rule digit_literals)+
  with b(1) have "s = [CHR '' '', b] @ r \<and> length [CHR '' '', b] \<le> 2 \<and> sep_free [CHR '' '', b]"
    by (simp add: sep_free_def)
  then show ?thesis by blast
qed

lemma match_D_m_shape:
  assumes "(v, r) \<in> set (match_directive D_m s)"
  shows "\<exists>p. s = p @ r \<and> length p \<le> 2 \<and> sep_free p"
proof -
  from assms consider
      (a) "(v, r) \<in> set (two_chars (\<lambda>a. a = CHR ''1'') (in_range (CHR ''0'') (CHR ''2'')) s)"
    | (b) "(v, r) \<in> set (two_chars (\<lambda>a. a = CHR ''0'') (in_range (CHR ''1'') (CHR ''9'')) s)"
    | (c) "(v, r) \<in> set (one_char (in_range (CHR ''1'') (CHR ''9'')) s)"
    by (simp only: match_directive.simps set_append Un_iff) blast
  then show ?thesis
  proof cases
    case a
    then show ?thesis
      by (rule two_chars_prefix) (simp_all add: digit_literals in_range_ok)
  next
    case b
    then show ?thesis
      by (rule two_chars_prefix) (simp_all add: digit_literals in_range_ok)
  next
    case c
    then show ?thesis
      by (rule one_char_prefix) (simp_all add: digit_literals in_range_ok)
  qed
qed

lemma match_D_d_shape:
  assumes "(v, r) \<in> set (match_directive D_d s)"
  shows "\<exists>p. s = p @ r \<and> length p \<le> 2 \<and> sep_free p"
proof -
  from assms consider
      (a) "(v, r) \<in> set (two_chars (\<lambda>a. a = CHR ''3'') (in_range (CHR ''0'') (CHR ''1'')) s)"
    | (b) "(v, r) \<in> set (two_chars (in_range (CHR ''1'') (CHR ''2'')) is_digit s)"
    | (c) "(v, r) \<in> set (two_chars (\<lambda>a. a = CHR ''0'') (in_range (CHR ''1'') (CHR ''9'')) s)"
    | (d) "(v, r) \<in> set (one_char (in_range (CHR ''1'') (CHR ''9'')) s)"
    | (e) "(v, r) \<in> set (space_digit s)"
    by (simp only: match_directive.simps set_append Un_iff) blast
  then show ?thesis
  proof cases
    case a
    then show ?thesis
      by (rule two_chars_prefix) (simp_all add: digit_literals in_range_ok)
  next
    case b
    then show ?thesis
      by (rule two_chars_prefix) (simp_all add: digit_literals in_range_ok)
  next
    case c
    then show ?thesis
      by (rule two_chars_prefix) (simp_all add: digit_literals in_range_ok)
  next
    case d
    then show ?thesis
      by (rule one_char_prefix) (simp_all add: digit_literals in_range_ok)
  next
    case e
    then show ?thesis by (rule space_digit_prefix)
  qed
qed

lemma match_D_Y_shape:
  assumes "(v, r) \<in> set (match_directive D_Y s)"
  shows "\<exists>p. s = p @ r \<and> length p = 4 \<and> sep_free p"
proof -
  from assms obtain a b c d where
    "s = a # b # c # d # r" "is_digit a" "is_digit b" "is_digit c" "is_digit d"
    by (auto dest!: four_digits_shape)
  then have "s = [a, b, c, d] @ r \<and> length [a, b, c, d] = 4 \<and> sep_free [a, b, c, d]"
    by (simp add: sep_free_def)
  then show ?thesis by blast
qed

lemma of_char_lower_char:
  "(of_char (lower_char a) :: nat) =
     (if 65 \<le> (of_char a :: nat) \<and> (of_char a :: nat) \<le> 90 then of_char a + 32 else of_char a)"
  by (simp add: lower_char_def Let_def)

lemma lower_char_slash: "lower_char a = CHR ''/'' \<Longrightarrow> a = CHR ''/''"
proof -
  assume "lower_char a = CHR ''/''"
  then have "(of_char (lower_char a) :: nat) = of_char (CHR ''/'')" by simp
  then have "(of_char a :: nat) = of_char (CHR ''/'')"
    by (simp add: of_char_lower_char split: if_splits)
  then show ?thesis by (simp only: of_char_eq_iff)
qed

lemma lower_char_hyphen: "lower_char a = CHR ''-'' \<Longrightarrow> a = CHR ''-''"
proof -
  assume "lower_char a = CHR ''-''"
  then have "(of_char (lower_char a) :: nat) = of_char (CHR ''-'')" by simp
  then have "(of_char a :: nat) = of_char (CHR ''-'')"
    by (simp add: of_char_lower_char split: if_splits)
  then show ?thesis by (simp only: of_char_eq_iff)
qed

lemma match_Lit_shape:
  "(v, r) \<in> set (match_directive (Lit c) s) \<Longrightarrow> \<exists>a. s = a # r \<and> lower_char a = lower_char c"
  by (auto split: list.splits if_splits)

lemma match_format_Cons:
  "match_format (d # ds) s \<noteq> [] \<Longrightarrow>
   \<exists>v r. (v, r) \<in> set (match_directive d s) \<and> match_format ds r \<noteq> []"
  by (fastforce simp add: split_def)

lemma lower_char_slash_lit: "lower_char (CHR ''/'') = CHR ''/''"
  by (simp add: lower_char_def)

lemma lower_char_hyphen_lit: "lower_char (CHR ''-'') = CHR ''-''"
  by (simp add: lower_char_def)

lemma head_field_shape:
  assumes "match_format (d # Lit c # ds) s \<noteq> []"
    and "\<And>v r. (v, r) \<in> set (match_directive d s) \<Longrightarrow> \<exists>p. s = p @ r \<and> P p"
  shows "\<exists>p a r. s = p @ a # r \<and> lower_char a = lower_char c \<and> P p"
proof -
  from match_format_Cons [OF assms(1)] obtain v r where
    vr: "(v, r) \<in> set (match_directive d s)" and rest: "match_format (Lit c # ds) r \<noteq> []"
    by blast
  from match_format_Cons [OF rest] obtain v' r' where
    "(v', r') \<in> set (match_directive (Lit c) r)" by blast
  from match_Lit_shape [OF this] obtain a where a: "r = a # r'" "lower_char a = lower_char c"
    by blast
  from assms(2) [OF vr] obtain p where "s = p @ r" "P p" by blast
  with a show ?thesis by blast
qed

lemma strptime_matches: "strptime s fmt = Inr dt \<Longrightarrow> match_format (parse_format fmt) s \<noteq> []"
  by (auto simp add: strptime_def split: list.splits)

lemma parse_format_mdy:
  "parse_format ''%m/%d/%y'' = [D_m, Lit (CHR ''/''), D_d, Lit (CHR ''/''), D_y]"
  by (simp add: directive_of_def)

lemma parse_format_dby:
  "parse_format ''%d-%b-%y'' = [D_d, Lit (CHR ''-''), D_b, Lit (CHR ''-''), D_y]"
  by (simp add: directive_of_def)

lemma parse_format_Ymd:
  "parse_format ''%Y-%m-%d'' = [D_Y, Lit (CHR ''-''), D_m, Lit (CHR ''-''), D_d]"
  by (simp add: directive_of_def)

lemma mdy_shape:
  assumes "strptime s ''%m/%d/%y'' = Inr dt"
  shows "\<exists>p r. s = p @ CHR ''/'' # r \<and> length p \<le> 2 \<and> sep_free p"
proof -
  from strptime_matches [OF assms]
  have "match_format (D_m # Lit (CHR ''/'') # [D_d, Lit (CHR ''/''), D_y]) s \<noteq> []"
    unfolding parse_format_mdy .
  from head_field_shape [OF this, of "\<lambda>p. length p \<le> 2 \<and> sep_free p"] match_D_m_shape
  obtain p a r where "s = p @ a # r" "lower_char a = lower_char (CHR ''/'')"
    "length p \<le> 2" "sep_free p" by blast
  then show ?thesis
    by (auto simp add: lower_char_slash_lit dest: lower_char_slash)
qed

lemma dby_shape:
  assumes "strptime s ''%d-%b-%y'' = Inr dt"
  shows "\<exists>p r. s = p @ CHR ''-'' # r \<and> length p \<le> 2 \<and> sep_free p"
proof -
  from strptime_matches [OF assms]
  have "match_format (D_d # Lit (CHR ''-'') # [D_b, Lit (CHR ''-''), D_y]) s \<noteq> []"
    unfolding parse_format_dby .
  from head_field_shape [OF this, of "\<lambda>p. length p \<le> 2 \<and> sep_free p"] match_D_d_shape
  obtain p a r where "s = p @ a # r" "lower_char a = lower_char (CHR ''-'')"
    "length p \<le> 2" "sep_free p" by blast
  then show ?thesis
    by (auto simp add: lower_char_hyphen_lit dest: lower_char_hyphen)
qed

lemma Ymd_shape:
  assumes "strptime s ''%Y-%m-%d'' = Inr dt"
  shows "\<exists>p r. s = p @ CHR ''-'' # r \<and> length p = 4 \<and> sep_free p"
proof -
  from strptime_matches [OF assms]
  have "match_format (D_Y # Lit (CHR ''-'') # [D_m, Lit (CHR ''-''), D_d]) s \<noteq> []"
    unfolding parse_format_Ymd .
  from head_field_shape [OF this, of "\<lambda>p. length p = 4 \<and> sep_free p"] match_D_Y_shape
  obtain p a r where "s = p @ a # r" "lower_char a = lower_char (CHR ''-'')"
    "length p = 4" "sep_free p" by blast
  then show ?thesis
    by (auto simp add: lower_char_hyphen_lit dest: lower_char_hyphen)
qed

lemma sep_free_no_slash: "sep_free p \<Longrightarrow> CHR ''/'' \<notin> set p"
  by (auto simp add: sep_free_def list_all_iff is_digit_def)

lemma sep_free_no_hyphen: "sep_free p \<Longrightarrow> CHR ''-'' \<notin> set p"
  by (auto simp add: sep_free_def list_all_iff is_digit_def)

lemma first_separator_unique:
  "p1 @ c1 # r1 = p2 @ c2 # r2 \<Longrightarrow> c1 \<notin> set p2 \<Longrightarrow> c2 \<notin> set p1 \<Longrightarrow> p1 = p2 \<and> c1 = c2"
proof (induction p1 arbitrary: p2)
  case Nil
  show ?case
  proof (cases p2)
    case Nil
    with Nil.prems show ?thesis by simp
  next
    case (Cons y ys)
    with Nil.prems show ?thesis by simp
  qed
next
  case (Cons x p1)
  show ?case
  proof (cases p2)
    case Nil
    with Cons.prems show ?thesis by simp
  next
    case (Cons y ys)
    with Cons.prems have "p1 @ c1 # r1 = ys @ c2 # r2" "c1 \<notin> set ys" "c2 \<notin> set p1" "x = y"
      by simp_all
    with Cons.IH [of ys] Cons show ?thesis by simp
  qed
qed

lemma format_shape:
  assumes "f \<in> set DATE_FORMATS" "strptime s f = Inr d"
  shows "\<exists>p c r. s = p @ c # r \<and> sep_free p \<and>
           ((c = CHR ''/'' \<and> f = ''%m/%d/%y'') \<or>
            (c = CHR ''-'' \<and> length p \<le> 2 \<and> f = ''%d-%b-%y'') \<or>
            (c = CHR ''-'' \<and> length p = 4 \<and> f = ''%Y-%m-%d''))"
proof -
  from assms(1) consider "f = ''%m/%d/%y''" | "f = ''%d-%b-%y''" | "f = ''%Y-%m-%d''"
    unfolding DATE_FORMATS_def by (simp only: set_simps insert_iff empty_iff) blast
  then show ?thesis
  proof cases
    case 1
    with assms(2) mdy_shape [of s d] show ?thesis by blast
  next
    case 2
    with assms(2) dby_shape [of s d] show ?thesis by blast
  next
    case 3
    with assms(2) Ymd_shape [of s d] show ?thesis by blast
  qed
qed

lemma formats_exclusive:
  assumes "f1 \<in> set DATE_FORMATS" "f2 \<in> set DATE_FORMATS"
    and "strptime s f1 = Inr d1" "strptime s f2 = Inr d2"
  shows "f1 = f2"
proof -
  from format_shape [OF assms(1,3)] obtain p1 c1 r1 where
    s1: "s = p1 @ c1 # r1" and f1: "sep_free p1" and
    k1: "(c1 = CHR ''/'' \<and> f1 = ''%m/%d/%y'') \<or>
         (c1 = CHR ''-'' \<and> length p1 \<le> 2 \<and> f1 = ''%d-%b-%y'') \<or>
         (c1 = CHR ''-'' \<and> length p1 = 4 \<and> f1 = ''%Y-%m-%d'')" by blast
  from format_shape [OF assms(2,4)] obtain p2 c2 r2 where
    s2: "s = p2 @ c2 # r2" and f2: "sep_free p2" and
    k2: "(c2 = CHR ''/'' \<and> f2 = ''%m/%d/%y'') \<or>
         (c2 = CHR ''-'' \<and> length p2 \<le> 2 \<and> f2 = ''%d-%b-%y'') \<or>
         (c2 = CHR ''-'' \<and> length p2 = 4 \<and> f2 = ''%Y-%m-%d'')" by blast
  from k1 f2 have n1: "c1 \<notin> set p2"
    using sep_free_no_slash [of p2] sep_free_no_hyphen [of p2] by blast
  from k2 f1 have n2: "c2 \<notin> set p1"
    using sep_free_no_slash [of p1] sep_free_no_hyphen [of p1] by blast
  from s1 s2 have "p1 @ c1 # r1 = p2 @ c2 # r2" by simp
  from first_separator_unique [OF this n1 n2] have eq: "p1 = p2" "c1 = c2" by simp_all
  have ne: "CHR ''/'' \<noteq> CHR ''-''" by simp
  from k1 k2 eq ne show ?thesis by auto
qed

lemma try_formats_first_match:
  assumes "fmt \<in> set fmts" "strptime s fmt = Inr dt"
    and "\<And>f d. f \<in> set fmts \<Longrightarrow> strptime s f = Inr d \<Longrightarrow> d = dt"
  shows "try_formats fmts s = Some (Inr (Stamp dt))"
  using assms
proof (induction fmts)
  case Nil
  then show ?case by simp
next
  case (Cons f fmts)
  show ?case
  proof (cases "strptime s f")
    case (Inr d)
    with Cons.prems(3) [of f d] show ?thesis by simp
  next
    case (Inl e)
    then have e: "e = ValueError" by (rule strptime_error)
    from Inl Cons.prems(1,2) have mem: "fmt \<in> set fmts" by auto
    have "try_formats fmts s = Some (Inr (Stamp dt))"
    proof (rule Cons.IH [OF mem Cons.prems(2)])
      fix g d
      assume "g \<in> set fmts" "strptime s g = Inr d"
      then show "d = dt" using Cons.prems(3) [of g d] by simp
    qed
    with Inl e show ?thesis by simp
  qed
qed

text \<open>
  Claim C5. When one of the three formats parses a date string, no other format parses
  it, so every format that matches gives the same date, and that date is what
  \<open>parse_date\<close> returns (unless the string is one of the sentinels, which are never
  parsed): the order in which the formats are tried cannot change the result.
\<close>

theorem date_formats_agree:
  assumes "fmt \<in> set DATE_FORMATS" and "strptime (strip t) fmt = Inr dt"
  shows "(\<forall>fmt' \<in> set DATE_FORMATS. \<forall>dt'. strptime (strip t) fmt' = Inr dt' \<longrightarrow> fmt' = fmt \<and> dt' = dt) \<and>
         parse_date to_datetime repr (Text t) = (if sentinel t then Inr PyNone else Inr (Stamp dt))"
proof -
  have agree: "fmt' = fmt \<and> dt' = dt"
    if "fmt' \<in> set DATE_FORMATS" "strptime (strip t) fmt' = Inr dt'" for fmt' dt'
  proof -
    from formats_exclusive [OF that(1) assms(1) that(2) assms(2)] have "fmt' = fmt" .
    with that(2) assms(2) show ?thesis by simp
  qed
  have "try_formats DATE_FORMATS (strip t) = Some (Inr (Stamp dt))"
    by (rule try_formats_first_match [OF assms]) (use agree in blast)
  then have "parse_date to_datetime repr (Text t) = (if sentinel t then Inr PyNone else Inr (Stamp dt))"
    by (simp add: parse_date_def sentinel_def isna_def Let_def)
  with agree show ?thesis by blast
qed

lemma strptime_mdy_example: "strptime (strip '' 01/02/03 '') ''%m/%d/%y'' = Inr (Date 2003 1 2)"
  by code_simp

lemma mdy_in_DATE_FORMATS: "''%m/%d/%y'' \<in> set DATE_FORMATS"
  by (simp add: DATE_FORMATS_def)

theorem date_formats_agree_witness:
  "''%m/%d/%y'' \<in> set DATE_FORMATS \<and>
   strptime (strip '' 01/02/03 '') ''%m/%d/%y'' = Inr (Date 2003 1 2) \<and>
   parse_date (\<lambda>s. None) (\<lambda>c. ''nan'') (Text '' 01/02/03 '') = Inr (Stamp (Date 2003 1 2))"
proof -
  have ns: "\<not> sentinel '' 01/02/03 ''" by (simp add: sentinel_def)
  from date_formats_agree [OF mdy_in_DATE_FORMATS strptime_mdy_example, of "\<lambda>s. None" "\<lambda>c. ''nan''"]
  have "parse_date (\<lambda>s. None) (\<lambda>c. ''nan'') (Text '' 01/02/03 '') =
        (if sentinel '' 01/02/03 '' then Inr PyNone else Inr (Stamp (Date 2003 1 2)))"
    by (rule conjunct2)
  with ns have "parse_date (\<lambda>s. None) (\<lambda>c. ''nan'') (Text '' 01/02/03 '') =
        Inr (Stamp (Date 2003 1 2))"
    by (simp only: if_False)
  with mdy_in_DATE_FORMATS strptime_mdy_example show ?thesis by (intro conjI)
qed

text \<open>Further dates, one per format, and a day that the month does not have.\<close>

lemma strptime_examples:
  "strptime ''5-Jan-99'' ''%d-%b-%y'' = Inr (Date 1999 1 5)"
  "strptime ''2020-02-29'' ''%Y-%m-%d'' = Inr (Date 2020 2 29)"
  "strptime ''2021-02-29'' ''%Y-%m-%d'' = Inl ValueError"
  "strptime ''12/31/69'' ''%m/%d/%y'' = Inr (Date 1969 12 31)"
  by code_simp+

end
